theory Spec2Isabelle
  imports Main "HOL-Library.Sublist" "HOL-Library.Code_Target_Nat"
begin

section \<open>The instrumented allocator of InnoDB (include/ut0new.h)\<close>

text \<open>
  A shallow embedding of \<^verbatim>\<open>storage/innobase/include/ut0new.h\<close>, in the configuration
  with \<^verbatim>\<open>UNIV_PFS_MEMORY\<close> defined (the only one in which the key table, the prefix
  header and \<^verbatim>\<open>n_elements_allocated\<close> exist). Values of \<^verbatim>\<open>size_t\<close> are natural
  numbers below \<open>2 ^ 64\<close>, with the wrap-around written out; pointers are addresses,
  \<open>0\<close> being \<^verbatim>\<open>nullptr\<close>.
\<close>

subsection \<open>Key registry: resolving a call site to a key\<close>

type_synonym PSI_memory_key = nat

text \<open>
  \<^verbatim>\<open>PSI_NOT_INSTRUMENTED\<close> comes from \<^verbatim>\<open>psi_bits.h\<close>, where it is the key \<open>0\<close>.
  Only the concrete examples below use its value.
\<close>

definition PSI_NOT_INSTRUMENTED :: PSI_memory_key where
  "PSI_NOT_INSTRUMENTED = 0"

text \<open>The table \<^verbatim>\<open>auto_event_names[]\<close>, in the order of the source.\<close>

definition auto_event_names :: "string list" where
  "auto_event_names = [
    ''api0api'', ''api0misc'', ''btr0btr'', ''btr0cur'', ''btr0load'', ''btr0pcur'',
    ''btr0sea'', ''btr0types'', ''buf'', ''buf0buddy'', ''buf0buf'', ''buf0checksum'',
    ''buf0dblwr'', ''buf0dump'', ''buf0flu'', ''buf0lru'', ''buf0rea'', ''buf0stats'',
    ''buf0types'', ''checksum'', ''crc32'', ''create'', ''data0data'', ''data0type'',
    ''data0types'', ''db0err'', ''ddl0buffer'', ''ddl0builder'', ''ddl0ctx'',
    ''ddl0ddl'', ''ddl0file-reader'', ''ddl0loader'', ''ddl0merge'', ''ddl0rtree'',
    ''ddl0par-scan'', ''dict'', ''dict0boot'', ''dict0crea'', ''dict0dd'',
    ''dict0dict'', ''dict0load'', ''dict0mem'', ''dict0priv'', ''dict0sdi'',
    ''dict0stats'', ''dict0stats_bg'', ''dict0types'', ''dyn0buf'', ''dyn0types'',
    ''eval0eval'', ''eval0proc'', ''fil0fil'', ''fil0types'', ''file'', ''fsp0file'',
    ''fsp0fsp'', ''fsp0space'', ''fsp0sysspace'', ''fsp0types'', ''fts0ast'',
    ''fts0blex'', ''fts0config'', ''fts0fts'', ''fts0opt'', ''fts0pars'',
    ''fts0plugin'', ''fts0priv'', ''fts0que'', ''fts0sql'', ''fts0tlex'',
    ''fts0tokenize'', ''fts0types'', ''fts0vlc'', ''fut0fut'', ''fut0lst'', ''gis0geo'',
    ''gis0rtree'', ''gis0sea'', ''gis0type'', ''ha0ha'', ''ha0storage'', ''ha_innodb'',
    ''ha_innopart'', ''ha_prototypes'', ''handler0alter'', ''hash0hash'', ''i_s'',
    ''ib0mutex'', ''ibuf0ibuf'', ''ibuf0types'', ''lexyy'', ''lob0lob'', ''lock0iter'',
    ''lock0lock'', ''lock0prdt'', ''lock0priv'', ''lock0types'', ''lock0wait'',
    ''log0log'', ''log0recv'', ''log0write'', ''mach0data'', ''mem'', ''mem0mem'',
    ''memory'', ''mtr0log'', ''mtr0mtr'', ''mtr0types'', ''os0atomic'', ''os0event'',
    ''os0file'', ''os0numa'', ''os0once'', ''os0proc'', ''os0thread'', ''page'',
    ''page0cur'', ''page0page'', ''page0size'', ''page0types'', ''page0zip'',
    ''pars0grm'', ''pars0lex'', ''pars0opt'', ''pars0pars'', ''pars0sym'',
    ''pars0types'', ''que0que'', ''que0types'', ''read0read'', ''read0types'', ''rec'',
    ''rem0cmp'', ''rem0rec'', ''rem0types'', ''row0ext'', ''row0ft'', ''row0import'',
    ''row0ins'', ''row0log'', ''row0mysql'', ''row0purge'', ''row0quiesce'',
    ''row0row'', ''row0sel'', ''row0types'', ''row0uins'', ''row0umod'', ''row0undo'',
    ''row0upd'', ''row0vers'', ''sess0sess'', ''srv0conc'', ''srv0mon'', ''srv0srv'',
    ''srv0start'', ''srv0tmp'', ''sync0arr'', ''sync0debug'', ''sync0policy'',
    ''sync0sharded_rw'', ''sync0rw'', ''sync0sync'', ''sync0types'', ''trx0i_s'',
    ''trx0purge'', ''trx0rec'', ''trx0roll'', ''trx0rseg'', ''trx0sys'', ''trx0trx'',
    ''trx0types'', ''trx0undo'', ''trx0xa'', ''usr0sess'', ''usr0types'', ''ut'',
    ''ut0byte'', ''ut0counter'', ''ut0crc32'', ''ut0dbg'', ''ut0link_buf'', ''ut0list'',
    ''ut0lock_free_hash'', ''ut0lst'', ''ut0mem'', ''ut0mutex'', ''ut0new'',
    ''ut0pool'', ''ut0rbt'', ''ut0rnd'', ''ut0sort'', ''ut0stage'', ''ut0ut'',
    ''ut0vec'', ''ut0wqueue'', ''zipdecompress'']"

definition n_auto :: nat where
  "n_auto = length auto_event_names"

text \<open>
  A C string is the list of its characters before the terminating \<^verbatim>\<open>'\0'\<close>;
  \<open>c_char_at s i\<close> is \<^verbatim>\<open>s[i]\<close>, the terminator included. (The loops below never
  read past a terminator when the second string has no \<^verbatim>\<open>'\0'\<close> among its first
  \<open>b_len\<close> characters: the terminator of \<open>a\<close> is then a mismatch.)
\<close>

definition c_char_at :: "string \<Rightarrow> nat \<Rightarrow> char" where
  "c_char_at s i = (if i < length s then s ! i else CHR 0x00)"

text \<open>
  \<^verbatim>\<open>for (size_t i = 0; i < b_len; ++i) { if (a[i] != b[i]) return false; } return true;\<close>
\<close>

function ut_string_begins_with_from :: "string \<Rightarrow> string \<Rightarrow> nat \<Rightarrow> nat \<Rightarrow> bool" where
  "ut_string_begins_with_from a b b_len i =
     (if i < b_len
      then (if c_char_at a i \<noteq> c_char_at b i then False
            else ut_string_begins_with_from a b b_len (Suc i))
      else True)"
  by pat_completeness auto
termination
  by (relation "measure (\<lambda>(a, b, b_len, i). b_len - i)") auto

declare ut_string_begins_with_from.simps [simp del]

definition ut_string_begins_with :: "string \<Rightarrow> string \<Rightarrow> nat \<Rightarrow> bool" where
  "ut_string_begins_with a b b_len = ut_string_begins_with_from a b b_len 0"

text \<open>
  \<^verbatim>\<open>for (size_t i = 0;; ++i) { if (file[i] == '\0' || file[i] == '.') return i; }\<close>
  The end of the list is the terminator.
\<close>

fun ut_len_without_extension :: "string \<Rightarrow> nat" where
  "ut_len_without_extension [] = 0"
| "ut_len_without_extension (c # cs) =
     (if c = CHR 0x00 \<or> c = CHR ''.'' then 0 else Suc (ut_len_without_extension cs))"

text \<open>
  \<^verbatim>\<open>for (size_t i = 0; i < n_auto; ++i) {
       if (ut_string_begins_with(auto_event_names[i], file, len)) return static_cast<int>(i); }
     return -1;\<close>
\<close>

function ut_new_get_key_by_base_file_from :: "string \<Rightarrow> nat \<Rightarrow> nat \<Rightarrow> int" where
  "ut_new_get_key_by_base_file_from file len i =
     (if i < n_auto
      then (if ut_string_begins_with (auto_event_names ! i) file len then int i
            else ut_new_get_key_by_base_file_from file len (Suc i))
      else - 1)"
  by pat_completeness auto
termination
  by (relation "measure (\<lambda>(file, len, i). n_auto - i)") auto

declare ut_new_get_key_by_base_file_from.simps [simp del]

definition ut_new_get_key_by_base_file :: "string \<Rightarrow> nat \<Rightarrow> int" where
  "ut_new_get_key_by_base_file file len = ut_new_get_key_by_base_file_from file len 0"

definition ut_new_get_key_by_file :: "string \<Rightarrow> int" where
  "ut_new_get_key_by_file file =
     ut_new_get_key_by_base_file file (ut_len_without_extension file)"

text \<open>
  The macro \<^verbatim>\<open>UT_NEW_THIS_FILE_PSI_KEY\<close>, with \<^verbatim>\<open>MY_BASENAME\<close> and the array
  \<^verbatim>\<open>auto_event_keys[n_auto]\<close> (filled at start-up by the performance schema) as
  parameters; the array is given as the function from an index to its entry.
\<close>

definition UT_NEW_THIS_FILE_PSI_KEY :: "(nat \<Rightarrow> PSI_memory_key) \<Rightarrow> string \<Rightarrow> PSI_memory_key" where
  "UT_NEW_THIS_FILE_PSI_KEY auto_event_keys MY_BASENAME =
     (let idx = ut_new_get_key_by_file MY_BASENAME
      in if idx = - 1 then PSI_NOT_INSTRUMENTED else auto_event_keys (nat idx))"

subsection \<open>Machine arithmetic, addresses, events\<close>

text \<open>\<^verbatim>\<open>size_t\<close> and \<^verbatim>\<open>std::uintptr_t\<close> are 64 bits wide; their operations wrap.\<close>

definition SIZE_MAX :: nat where
  "SIZE_MAX = 2 ^ 64 - 1"

definition size_t_add :: "nat \<Rightarrow> nat \<Rightarrow> nat" where
  "size_t_add a b = (a + b) mod 2 ^ 64"

definition size_t_sub :: "nat \<Rightarrow> nat \<Rightarrow> nat" where
  "size_t_sub a b = (a + 2 ^ 64 - b) mod 2 ^ 64"

definition size_t_mul :: "nat \<Rightarrow> nat \<Rightarrow> nat" where
  "size_t_mul a b = (a * b) mod 2 ^ 64"

type_synonym addr = nat

definition nullptr :: addr where
  "nullptr = 0"

type_synonym PSI_thread = nat

datatype exn = Bad_alloc | Bad_array_new_length | T_exception nat

text \<open>
  What a run does to the world outside, in order: calls of the OS allocator with what
  they returned, sleeps, calls of the performance schema, constructor and destructor
  calls with the address of the object, and calls of the raw \<^verbatim>\<open>ut::\<close> allocation
  functions of \<^verbatim>\<open>detail/ut0new.h\<close>.
\<close>

datatype event =
    Os_malloc nat addr
  | Os_calloc nat nat addr
  | Os_realloc addr nat addr
  | Os_free addr
  | Sleep_for_seconds nat
  | Memory_alloc PSI_memory_key nat
  | Memory_free PSI_memory_key nat PSI_thread
  | Construct addr
  | Construct_throws addr exn
  | Destruct addr
  | Ut_alloc PSI_memory_key nat addr
  | Ut_free addr
  | Aligned_alloc PSI_memory_key nat nat addr
  | Aligned_free addr

subsection \<open>The prefix header and the container adapter \<^verbatim>\<open>ut_allocator<T>\<close>\<close>

record ut_new_pfx_t =
  m_key :: PSI_memory_key
  m_owner :: PSI_thread
  m_size :: nat

text \<open>
  \<^verbatim>\<open>sizeof(ut_new_pfx_t)\<close>: the struct is \<^verbatim>\<open>alignas(std::max_align_t)\<close>; with a 4-byte
  key, an 8-byte pointer, an 8-byte \<^verbatim>\<open>size_t\<close> and 16-byte \<^verbatim>\<open>max_align_t\<close> it takes
  32 bytes.
\<close>

definition sizeof_ut_new_pfx_t :: nat where
  "sizeof_ut_new_pfx_t = 32"

text \<open>
  Modelled from the spec: \<^verbatim>\<open>alloc_max_retries\<close> is declared \<^verbatim>\<open>extern const size_t\<close> in the
  header and defined in a file that is not among the sources; the documented retry
  budget is 60 attempts.
\<close>

definition alloc_max_retries :: nat where
  "alloc_max_retries = 60"

text \<open>
  The class has one data member, \<^verbatim>\<open>m_key\<close> (here \<open>alloc_key\<close>: the header has a field
  of the same name); \<open>sizeof(T)\<close> is passed to its methods as \<open>sT\<close>.
\<close>

record ut_allocator =
  alloc_key :: PSI_memory_key

text \<open>
  The environment the allocator runs in: \<open>os_answer k\<close> is what the \<open>k\<close>-th call of
  \<^verbatim>\<open>malloc\<close>, \<^verbatim>\<open>calloc\<close> or \<^verbatim>\<open>realloc\<close> returns (\<open>nullptr\<close> for a failure), and
  \<open>psi_memory_alloc key size\<close> is the key the performance schema returns together with
  the owner it stores through its third argument.
\<close>

record env =
  os_answer :: "nat \<Rightarrow> addr"
  psi_memory_alloc :: "PSI_memory_key \<Rightarrow> nat \<Rightarrow> PSI_memory_key \<times> PSI_thread"

text \<open>
  The state: how many calls the OS allocator has answered, the headers in memory (by
  address; a header never written holds whatever is there), and the events so far.
  Pointer arithmetic is arithmetic on addresses: \<^verbatim>\<open>pfx + 1\<close> is
  \<open>pfx + sizeof_ut_new_pfx_t\<close>, and \<^verbatim>\<open>reinterpret_cast<ut_new_pfx_t *>(ptr) - 1\<close> is
  \<open>ptr - sizeof_ut_new_pfx_t\<close> (a pointer that \<^verbatim>\<open>allocate\<close> returned is at least that
  large).
\<close>

record state =
  os_calls :: nat
  pfx_mem :: "addr \<Rightarrow> ut_new_pfx_t"
  events :: "event list"

definition emit :: "event list \<Rightarrow> state \<Rightarrow> state" where
  "emit evs s = s\<lparr>events := events s @ evs\<rparr>"

definition max_size :: "nat \<Rightarrow> nat" where
  "max_size sT = (SIZE_MAX - sizeof_ut_new_pfx_t) div sT"

definition allocate_trace ::
  "env \<Rightarrow> ut_allocator \<Rightarrow> nat \<Rightarrow> PSI_memory_key \<Rightarrow> addr \<Rightarrow> state \<Rightarrow> state" where
  "allocate_trace E a sz key pfx s =
     (let key = (if alloc_key a \<noteq> PSI_NOT_INSTRUMENTED then alloc_key a else key);
          (k, owner) = psi_memory_alloc E key sz
      in emit [Memory_alloc key sz]
           (s\<lparr>pfx_mem := (pfx_mem s)(pfx := \<lparr>m_key = k, m_owner = owner, m_size = sz\<rparr>)\<rparr>))"

definition deallocate_trace :: "addr \<Rightarrow> state \<Rightarrow> state" where
  "deallocate_trace pfx s =
     emit [Memory_free (m_key (pfx_mem s pfx)) (m_size (pfx_mem s pfx)) (m_owner (pfx_mem s pfx))] s"

text \<open>
  The retry loop of \<^verbatim>\<open>allocate\<close>:
  \<^verbatim>\<open>for (size_t retries = 1;; retries++) {
       ptr = set_to_zero ? ::calloc(1, total_bytes) : ::malloc(total_bytes);
       if (ptr != nullptr || retries >= alloc_max_retries) break;
       std::this_thread::sleep_for(std::chrono::seconds(1)); }\<close>
  (\<open>retries\<close> is below \<open>alloc_max_retries\<close> when it is incremented, so it does not wrap.)
\<close>

function allocate_retry :: "env \<Rightarrow> bool \<Rightarrow> nat \<Rightarrow> nat \<Rightarrow> state \<Rightarrow> addr \<times> state" where
  "allocate_retry E set_to_zero total_bytes retries s =
     (let ptr = os_answer E (os_calls s);
          s1 = emit [if set_to_zero then Os_calloc 1 total_bytes ptr else Os_malloc total_bytes ptr]
                 (s\<lparr>os_calls := Suc (os_calls s)\<rparr>)
      in if ptr \<noteq> nullptr \<or> retries \<ge> alloc_max_retries then (ptr, s1)
         else allocate_retry E set_to_zero total_bytes (Suc retries)
                (emit [Sleep_for_seconds 1] s1))"
  by pat_completeness auto
termination
  by (relation "measure (\<lambda>(E, z, total_bytes, retries, s). alloc_max_retries - retries)") auto

declare allocate_retry.simps [simp del]

definition allocate ::
  "env \<Rightarrow> ut_allocator \<Rightarrow> nat \<Rightarrow> nat \<Rightarrow> PSI_memory_key \<Rightarrow> bool \<Rightarrow> state \<Rightarrow> (exn + addr) \<times> state" where
  "allocate E a sT n_elements key set_to_zero s =
     (if n_elements > max_size sT then (Inl Bad_array_new_length, s)
      else
        let total_bytes = size_t_add (size_t_mul n_elements sT) sizeof_ut_new_pfx_t;
            (ptr, s1) = allocate_retry E set_to_zero total_bytes 1 s
        in if ptr = nullptr then (Inl Bad_alloc, s1)
           else (Inr (ptr + sizeof_ut_new_pfx_t), allocate_trace E a total_bytes key ptr s1))"

definition deallocate :: "addr \<Rightarrow> state \<Rightarrow> state" where
  "deallocate ptr s =
     (if ptr = nullptr then s
      else let pfx = ptr - sizeof_ut_new_pfx_t
           in emit [Os_free pfx] (deallocate_trace pfx s))"

text \<open>
  The retry loop of \<^verbatim>\<open>reallocate\<close>. A successful \<^verbatim>\<open>realloc\<close> moves the contents of the
  block, its header included, to the address it returns.
\<close>

function reallocate_retry :: "env \<Rightarrow> addr \<Rightarrow> nat \<Rightarrow> nat \<Rightarrow> state \<Rightarrow> addr \<times> state" where
  "reallocate_retry E pfx_old total_bytes retries s =
     (let pfx_new = os_answer E (os_calls s);
          s1 = emit [Os_realloc pfx_old total_bytes pfx_new]
                 (s\<lparr>os_calls := Suc (os_calls s),
                    pfx_mem := (if pfx_new \<noteq> nullptr
                                then (pfx_mem s)(pfx_new := pfx_mem s pfx_old) else pfx_mem s)\<rparr>)
      in if pfx_new \<noteq> nullptr \<or> retries \<ge> alloc_max_retries then (pfx_new, s1)
         else reallocate_retry E pfx_old total_bytes (Suc retries)
                (emit [Sleep_for_seconds 1] s1))"
  by pat_completeness auto
termination
  by (relation "measure (\<lambda>(E, pfx_old, total_bytes, retries, s). alloc_max_retries - retries)") auto

declare reallocate_retry.simps [simp del]

definition reallocate ::
  "env \<Rightarrow> ut_allocator \<Rightarrow> nat \<Rightarrow> addr \<Rightarrow> nat \<Rightarrow> PSI_memory_key \<Rightarrow> state \<Rightarrow> (exn + addr) \<times> state" where
  "reallocate E a sT ptr n_elements key s =
     (if n_elements = 0 then (Inr nullptr, deallocate ptr s)
      else if ptr = nullptr then allocate E a sT n_elements key False s
      else if n_elements > max_size sT then (Inr nullptr, s)
      else
        let pfx_old = ptr - sizeof_ut_new_pfx_t;
            total_bytes = size_t_add (size_t_mul n_elements sT) sizeof_ut_new_pfx_t;
            (pfx_new, s1) = reallocate_retry E pfx_old total_bytes 1 s
        in if pfx_new = nullptr then (Inr nullptr, s1)
           else (Inr (pfx_new + sizeof_ut_new_pfx_t),
                 allocate_trace E a total_bytes key pfx_new (deallocate_trace pfx_new s1)))"

text \<open>
  \<^verbatim>\<open>n_elements_allocated\<close> (its \<^verbatim>\<open>ut_ad\<close> is a debug assertion and compiles to nothing
  in a release build).
\<close>

definition n_elements_allocated :: "nat \<Rightarrow> addr \<Rightarrow> state \<Rightarrow> nat" where
  "n_elements_allocated sT ptr s =
     (let pfx = ptr - sizeof_ut_new_pfx_t;
          user_bytes = size_t_sub (m_size (pfx_mem s pfx)) sizeof_ut_new_pfx_t
      in user_bytes div sT)"

text \<open>\<^verbatim>\<open>operator==\<close> and \<^verbatim>\<open>operator!=\<close> on two allocators of the same element type.\<close>

definition ut_allocator_eq :: "ut_allocator \<Rightarrow> ut_allocator \<Rightarrow> bool" where
  "ut_allocator_eq lhs rhs = True"

definition ut_allocator_neq :: "ut_allocator \<Rightarrow> ut_allocator \<Rightarrow> bool" where
  "ut_allocator_neq lhs rhs = (\<not> ut_allocator_eq lhs rhs)"

subsection \<open>Arrays through the adapter: \<^verbatim>\<open>new_array\<close> and \<^verbatim>\<open>delete_array\<close>\<close>

text \<open>
  A constructor call either returns (\<open>None\<close>) or throws (\<open>Some e\<close>); \<open>ctor i\<close> is what the
  default constructor of the element of index \<open>i\<close> does.

  \<^verbatim>\<open>for (i = 0; i < n_elements; i++) { new (p) T; ++p; }\<close>, left at the first throw with
  the values \<open>i\<close> and \<open>p\<close> have then.
\<close>

function new_array_construct ::
  "(nat \<Rightarrow> exn option) \<Rightarrow> nat \<Rightarrow> nat \<Rightarrow> addr \<Rightarrow> nat \<Rightarrow> event list
     \<Rightarrow> exn option \<times> nat \<times> addr \<times> event list" where
  "new_array_construct ctor sT n_elements p i evs =
     (if i < n_elements
      then (case ctor i of
              Some e \<Rightarrow> (Some e, i, p, evs @ [Construct_throws p e])
            | None \<Rightarrow> new_array_construct ctor sT n_elements (p + sT) (Suc i) (evs @ [Construct p]))
      else (None, i, p, evs))"
  by pat_completeness auto
termination
  by (relation "measure (\<lambda>(ctor, sT, n_elements, p, i, evs). n_elements - i)") auto

declare new_array_construct.simps [simp del]

text \<open>\<^verbatim>\<open>for (size_type j = 0; j < i; j++) { --p; p->~T(); }\<close>\<close>

function new_array_rollback :: "nat \<Rightarrow> nat \<Rightarrow> addr \<Rightarrow> nat \<Rightarrow> event list \<Rightarrow> event list" where
  "new_array_rollback sT i p j evs =
     (if j < i then new_array_rollback sT i (p - sT) (Suc j) (evs @ [Destruct (p - sT)])
      else evs)"
  by pat_completeness auto
termination
  by (relation "measure (\<lambda>(sT, i, p, j, evs). i - j)") auto

declare new_array_rollback.simps [simp del]

definition new_array ::
  "env \<Rightarrow> ut_allocator \<Rightarrow> nat \<Rightarrow> (nat \<Rightarrow> exn option) \<Rightarrow> nat \<Rightarrow> PSI_memory_key \<Rightarrow> state
     \<Rightarrow> (exn + addr) \<times> state" where
  "new_array E a sT ctor n_elements key s =
     (case allocate E a sT n_elements key False s of
        (Inl e, s1) \<Rightarrow> (Inl e, s1)
      | (Inr first, s1) \<Rightarrow>
          (case new_array_construct ctor sT n_elements first 0 [] of
             (None, i, p, evs) \<Rightarrow> (Inr first, emit evs s1)
           | (Some e, i, p, evs) \<Rightarrow>
               (Inl e, deallocate first (emit (new_array_rollback sT i p 0 evs) s1))))"

text \<open>\<^verbatim>\<open>for (size_type i = 0; i < n_elements; i++) { p->~T(); --p; }\<close>\<close>

function delete_array_destroy :: "nat \<Rightarrow> nat \<Rightarrow> addr \<Rightarrow> nat \<Rightarrow> event list \<Rightarrow> event list" where
  "delete_array_destroy sT n_elements p i evs =
     (if i < n_elements
      then delete_array_destroy sT n_elements (p - sT) (Suc i) (evs @ [Destruct p])
      else evs)"
  by pat_completeness auto
termination
  by (relation "measure (\<lambda>(sT, n_elements, p, i, evs). n_elements - i)") auto

declare delete_array_destroy.simps [simp del]

text \<open>\<^verbatim>\<open>T *p = ptr + n_elements - 1;\<close> is the address \<open>ptr + n_elements * sT - sT\<close>.\<close>

definition delete_array :: "nat \<Rightarrow> addr \<Rightarrow> state \<Rightarrow> state" where
  "delete_array sT ptr s =
     (if ptr = nullptr then s
      else let n_elements = n_elements_allocated sT ptr s;
               p = ptr + n_elements * sT - sT
           in deallocate ptr (emit (delete_array_destroy sT n_elements p 0 []) s))"

subsection \<open>Objects and arrays in namespace \<^verbatim>\<open>ut\<close>\<close>

text \<open>
  The raw allocation functions (\<^verbatim>\<open>detail::Alloc_\<close>, \<^verbatim>\<open>detail::Aligned_alloc_\<close>) are in
  \<^verbatim>\<open>detail/ut0new.h\<close>, which is not among the sources: the pointer \<open>mem\<close> they return is
  a parameter (\<open>nullptr\<close> when the allocation failed), the length \<open>data_len\<close> that
  \<^verbatim>\<open>datalen(ptr)\<close> reads from their bookkeeping is a parameter, and calling them is an
  event.
\<close>

definition new_withkey :: "PSI_memory_key \<Rightarrow> nat \<Rightarrow> addr \<Rightarrow> exn option \<Rightarrow> (exn + addr) \<times> event list" where
  "new_withkey key sT mem ctor =
     (if mem = nullptr then (Inl Bad_alloc, [Ut_alloc key sT mem])
      else case ctor of
             Some e \<Rightarrow> (Inl e, [Ut_alloc key sT mem, Construct_throws mem e, Ut_free mem])
           | None \<Rightarrow> (Inr mem, [Ut_alloc key sT mem, Construct mem]))"

text \<open>\<^verbatim>\<open>ut::delete_\<close> (a name cannot end in an underscore here).\<close>

definition ut_delete :: "addr \<Rightarrow> event list" where
  "ut_delete ptr = (if ptr = nullptr then [] else [Destruct ptr, Ut_free ptr])"

text \<open>
  The pack expansion of the variadic \<^verbatim>\<open>new_arr_withkey\<close>, one argument tuple after the
  other, left to right: \<^verbatim>\<open>detail::construct<T>(mem, sizeof(T) * idx++, args)\<close>.
  Modelled from the spec: \<^verbatim>\<open>detail::construct\<close> is not among the sources; it constructs
  one \<open>T\<close> in place at \<open>mem + offset\<close> from the tuple. \<open>ctor arg\<close> is what the constructor
  does on the tuple \<open>arg\<close>.
\<close>

fun new_arr_construct_args ::
  "('a \<Rightarrow> exn option) \<Rightarrow> nat \<Rightarrow> addr \<Rightarrow> 'a list \<Rightarrow> nat \<Rightarrow> event list
     \<Rightarrow> exn option \<times> nat \<times> event list" where
  "new_arr_construct_args ctor sT mem [] idx evs = (None, idx, evs)"
| "new_arr_construct_args ctor sT mem (arg # args) idx evs =
     (let offset = size_t_mul sT idx;
          idx = size_t_add idx 1
      in case ctor arg of
           Some e \<Rightarrow> (Some e, idx, evs @ [Construct_throws (mem + offset) e])
         | None \<Rightarrow> new_arr_construct_args ctor sT mem args idx (evs @ [Construct (mem + offset)]))"

text \<open>
  The handler of both \<^verbatim>\<open>new_arr_withkey\<close> overloads:
  \<^verbatim>\<open>for (; offset != 0; offset -= sizeof(T))
       reinterpret_cast<T *>(reinterpret_cast<std::uintptr_t>(mem) + offset - sizeof(T))->~T();\<close>
\<close>

partial_function (option) new_arr_rollback ::
  "nat \<Rightarrow> addr \<Rightarrow> nat \<Rightarrow> event list \<Rightarrow> event list option" where
  "new_arr_rollback sT mem offset evs =
     (if offset \<noteq> 0
      then new_arr_rollback sT mem (size_t_sub offset sT)
             (evs @ [Destruct (size_t_sub (size_t_add mem offset) sT)])
      else Some evs)"

declare new_arr_rollback.simps [code]

definition new_arr_withkey_args ::
  "PSI_memory_key \<Rightarrow> nat \<Rightarrow> addr \<Rightarrow> ('a \<Rightarrow> exn option) \<Rightarrow> 'a list
     \<Rightarrow> ((exn + addr) \<times> event list) option" where
  "new_arr_withkey_args key sT mem ctor args =
     (let ev0 = [Ut_alloc key (size_t_mul sT (length args)) mem]
      in if mem = nullptr then Some (Inl Bad_alloc, ev0)
         else case new_arr_construct_args ctor sT mem args 0 ev0 of
                (None, idx, evs) \<Rightarrow> Some (Inr mem, evs)
              | (Some e, idx, evs) \<Rightarrow>
                  map_option (\<lambda>evs'. (Inl e, evs' @ [Ut_free mem]))
                    (new_arr_rollback sT mem (size_t_mul (size_t_sub idx 1) sT) evs))"

text \<open>
  The \<^verbatim>\<open>ut::Count\<close> overload:
  \<^verbatim>\<open>for (; offset < sizeof(T) * count(); offset += sizeof(T))
       new (reinterpret_cast<uint8_t *>(mem) + offset) T{};\<close>
  left at the first throw with the value \<open>offset\<close> has then. The element at \<open>offset\<close> has
  index \<open>offset div sT\<close>.
\<close>

partial_function (option) new_arr_construct_count ::
  "(nat \<Rightarrow> exn option) \<Rightarrow> nat \<Rightarrow> addr \<Rightarrow> nat \<Rightarrow> nat \<Rightarrow> event list
     \<Rightarrow> (exn option \<times> nat \<times> event list) option" where
  "new_arr_construct_count ctor sT mem limit offset evs =
     (if offset < limit
      then (case ctor (offset div sT) of
              Some e \<Rightarrow> Some (Some e, offset, evs @ [Construct_throws (mem + offset) e])
            | None \<Rightarrow> new_arr_construct_count ctor sT mem limit (size_t_add offset sT)
                       (evs @ [Construct (mem + offset)]))
      else Some (None, offset, evs))"

declare new_arr_construct_count.simps [code]

definition new_arr_withkey_count ::
  "PSI_memory_key \<Rightarrow> nat \<Rightarrow> addr \<Rightarrow> (nat \<Rightarrow> exn option) \<Rightarrow> nat
     \<Rightarrow> ((exn + addr) \<times> event list) option" where
  "new_arr_withkey_count key sT mem ctor count =
     (let ev0 = [Ut_alloc key (size_t_mul sT count) mem]
      in if mem = nullptr then Some (Inl Bad_alloc, ev0)
         else case new_arr_construct_count ctor sT mem (size_t_mul sT count) 0 ev0 of
                None \<Rightarrow> None
              | Some (None, offset, evs) \<Rightarrow> Some (Inr mem, evs)
              | Some (Some e, offset, evs) \<Rightarrow>
                  map_option (\<lambda>evs'. (Inl e, evs' @ [Ut_free mem]))
                    (new_arr_rollback sT mem offset evs))"

text \<open>
  \<^verbatim>\<open>for (size_t offset = 0; offset < data_len; offset += sizeof(T))
       reinterpret_cast<T *>(reinterpret_cast<std::uintptr_t>(ptr) + offset)->~T();\<close>
\<close>

partial_function (option) delete_arr_destroy ::
  "nat \<Rightarrow> addr \<Rightarrow> nat \<Rightarrow> nat \<Rightarrow> event list \<Rightarrow> event list option" where
  "delete_arr_destroy sT ptr data_len offset evs =
     (if offset < data_len
      then delete_arr_destroy sT ptr data_len (size_t_add offset sT)
             (evs @ [Destruct (size_t_add ptr offset)])
      else Some evs)"

declare delete_arr_destroy.simps [code]

definition delete_arr :: "nat \<Rightarrow> addr \<Rightarrow> nat \<Rightarrow> event list option" where
  "delete_arr sT ptr data_len =
     (if ptr = nullptr then Some []
      else map_option (\<lambda>evs. evs @ [Ut_free ptr]) (delete_arr_destroy sT ptr data_len 0 []))"

subsection \<open>The aligned variants\<close>

definition aligned_new_withkey ::
  "PSI_memory_key \<Rightarrow> nat \<Rightarrow> nat \<Rightarrow> addr \<Rightarrow> exn option \<Rightarrow> (exn + addr) \<times> event list" where
  "aligned_new_withkey key alignment sT mem ctor =
     (if mem = nullptr then (Inl Bad_alloc, [Aligned_alloc key sT alignment mem])
      else case ctor of
             Some e \<Rightarrow> (Inl e, [Aligned_alloc key sT alignment mem, Construct_throws mem e])
           | None \<Rightarrow> (Inr mem, [Aligned_alloc key sT alignment mem, Construct mem]))"

definition aligned_delete :: "addr \<Rightarrow> event list" where
  "aligned_delete ptr = [Destruct ptr, Aligned_free ptr]"

text \<open>
  The loop of the overload taking a \<^verbatim>\<open>size_t count\<close>:
  \<^verbatim>\<open>for (size_t offset = 0; offset < sizeof(T) * count; offset += sizeof(T))
       new (reinterpret_cast<void *>(reinterpret_cast<std::uintptr_t>(mem) + offset)) T();\<close>
  It stands in no \<^verbatim>\<open>try\<close> block: a throw leaves the function.
\<close>

partial_function (option) aligned_new_arr_construct ::
  "(nat \<Rightarrow> exn option) \<Rightarrow> nat \<Rightarrow> addr \<Rightarrow> nat \<Rightarrow> nat \<Rightarrow> event list
     \<Rightarrow> (exn option \<times> event list) option" where
  "aligned_new_arr_construct ctor sT mem limit offset evs =
     (if offset < limit
      then (case ctor (offset div sT) of
              Some e \<Rightarrow> Some (Some e, evs @ [Construct_throws (size_t_add mem offset) e])
            | None \<Rightarrow> aligned_new_arr_construct ctor sT mem limit (size_t_add offset sT)
                       (evs @ [Construct (size_t_add mem offset)]))
      else Some (None, evs))"

declare aligned_new_arr_construct.simps [code]

definition aligned_new_arr_withkey ::
  "PSI_memory_key \<Rightarrow> nat \<Rightarrow> nat \<Rightarrow> addr \<Rightarrow> (nat \<Rightarrow> exn option) \<Rightarrow> nat
     \<Rightarrow> ((exn + addr) \<times> event list) option" where
  "aligned_new_arr_withkey key alignment sT mem ctor count =
     (let ev0 = [Aligned_alloc key (size_t_mul sT count) alignment mem]
      in if mem = nullptr then Some (Inl Bad_alloc, ev0)
         else case aligned_new_arr_construct ctor sT mem (size_t_mul sT count) 0 ev0 of
                None \<Rightarrow> None
              | Some (None, evs) \<Rightarrow> Some (Inr mem, evs)
              | Some (Some e, evs) \<Rightarrow> Some (Inl e, evs))"

subsection \<open>Vocabulary of the statements\<close>

text \<open>
  The index of the first of \<open>names\<close> that begins with \<open>ident\<close>, counting from \<open>i\<close>: the
  scan of the table as a recursion over the table.
\<close>

fun first_beginning_with :: "string \<Rightarrow> string list \<Rightarrow> nat \<Rightarrow> nat option" where
  "first_beginning_with ident [] i = None"
| "first_beginning_with ident (name # names) i =
     (if prefix ident name then Some i else first_beginning_with ident names (i + 1))"

text \<open>One call of the OS allocator by \<^verbatim>\<open>allocate\<close>, with the pointer it returned.\<close>

definition os_attempt :: "bool \<Rightarrow> nat \<Rightarrow> addr \<Rightarrow> event" where
  "os_attempt set_to_zero total_bytes ptr =
     (if set_to_zero then Os_calloc 1 total_bytes ptr else Os_malloc total_bytes ptr)"

text \<open>The calls of the performance schema among the events: the accounting entries.\<close>

fun is_accounting :: "event \<Rightarrow> bool" where
  "is_accounting (Memory_alloc key sz) = True"
| "is_accounting (Memory_free key sz owner) = True"
| "is_accounting ev = False"

definition accounting :: "event list \<Rightarrow> event list" where
  "accounting evs = filter is_accounting evs"

text \<open>The key an allocator accounts under: its own, unless that is not instrumented.\<close>

definition effective_key :: "ut_allocator \<Rightarrow> PSI_memory_key \<Rightarrow> PSI_memory_key" where
  "effective_key a key = (if alloc_key a \<noteq> PSI_NOT_INSTRUMENTED then alloc_key a else key)"


text \<open>
  The events of an array construction at \<open>mem\<close> whose element \<open>k\<close> throws \<open>e\<close>, rolled
  back: elements \<open>0\<close> to \<open>k - 1\<close> are constructed, the constructor of element \<open>k\<close>
  throws, and elements \<open>k - 1\<close> down to \<open>0\<close> are destructed.
\<close>

definition construct_then_rollback :: "addr \<Rightarrow> nat \<Rightarrow> nat \<Rightarrow> exn \<Rightarrow> event list" where
  "construct_then_rollback mem sT k e =
     map (\<lambda>i. Construct (mem + i * sT)) [0..<k]
     @ [Construct_throws (mem + k * sT) e]
     @ map (\<lambda>i. Destruct (mem + i * sT)) (rev [0..<k])"

text \<open>
  Concrete surroundings for the examples: a state with nothing in it, an OS allocator
  that fails every call, and one whose \<open>k\<close>-th call returns the address
  \<open>4096 * (k + 1)\<close>; the performance schema returns the key it is given and the
  owner 7.
\<close>

definition example_state :: state where
  "example_state =
     \<lparr>os_calls = 0, pfx_mem = (\<lambda>p. \<lparr>m_key = 0, m_owner = 0, m_size = 0\<rparr>), events = []\<rparr>"

text \<open>The state after 3 elements of 8 bytes were allocated under key 5 at the address 4096.\<close>

definition allocated_state :: state where
  "allocated_state =
     \<lparr>os_calls = 1,
      pfx_mem = (\<lambda>p. \<lparr>m_key = 0, m_owner = 0, m_size = 0\<rparr>)
                (4096 := \<lparr>m_key = 5, m_owner = 7, m_size = 56\<rparr>),
      events = [Os_malloc 56 4096, Memory_alloc 5 56]\<rparr>"

definition failing_os :: env where
  "failing_os = \<lparr>os_answer = (\<lambda>k. nullptr), psi_memory_alloc = (\<lambda>key sz. (key, 7))\<rparr>"

definition generous_os :: env where
  "generous_os = \<lparr>os_answer = (\<lambda>k. 4096 * (k + 1)), psi_memory_alloc = (\<lambda>key sz. (key, 7))\<rparr>"

text \<open>A constructor that throws the exception 7 for the element \<open>k\<close> and returns for the others.\<close>

definition throws_at :: "nat \<Rightarrow> nat \<Rightarrow> exn option" where
  "throws_at k i = (if i = k then Some (T_exception 7) else None)"

section \<open>Key resolution\<close>

lemma ut_string_begins_with_from_iff:
  "ut_string_begins_with_from a b b_len i \<longleftrightarrow>
     (\<forall>j. i \<le> j \<and> j < b_len \<longrightarrow> c_char_at a j = c_char_at b j)"
proof (induction a b b_len i rule: ut_string_begins_with_from.induct)
  case (1 a b b_len i)
  show ?case
  proof (cases "i < b_len")
    case False
    then show ?thesis by (auto simp: ut_string_begins_with_from.simps [of a b b_len i])
  next
    case True
    show ?thesis
    proof (cases "c_char_at a i = c_char_at b i")
      case False
      with True show ?thesis
        by (auto simp: ut_string_begins_with_from.simps [of a b b_len i])
    next
      case same: True
      have "ut_string_begins_with_from a b b_len i = ut_string_begins_with_from a b b_len (Suc i)"
        using True same by (simp add: ut_string_begins_with_from.simps [of a b b_len i])
      also have "\<dots> \<longleftrightarrow> (\<forall>j. Suc i \<le> j \<and> j < b_len \<longrightarrow> c_char_at a j = c_char_at b j)"
        using "1.IH" True same by simp
      also have "\<dots> \<longleftrightarrow> (\<forall>j. i \<le> j \<and> j < b_len \<longrightarrow> c_char_at a j = c_char_at b j)"
        using same by (metis Suc_leI le_neq_implies_less Suc_leD)
      finally show ?thesis .
    qed
  qed
qed

text \<open>
  On an identifier without \<^verbatim>\<open>'\0'\<close>, \<open>ut_string_begins_with a ident (length ident)\<close> says
  that \<open>a\<close> begins with \<open>ident\<close>: the identifier is the prefix, the first argument the
  string searched.
\<close>

lemma ut_string_begins_with_prefix:
  assumes "CHR 0x00 \<notin> set ident"
  shows "ut_string_begins_with a ident (length ident) \<longleftrightarrow> prefix ident a"
proof
  assume "ut_string_begins_with a ident (length ident)"
  then have eq: "\<And>j. j < length ident \<Longrightarrow> c_char_at a j = ident ! j"
    by (simp add: ut_string_begins_with_def ut_string_begins_with_from_iff c_char_at_def)
  have inb: "j < length a" if "j < length ident" for j
  proof (rule ccontr)
    assume "\<not> j < length a"
    then have "c_char_at a j = CHR 0x00" by (simp add: c_char_at_def)
    with eq [OF that] have "ident ! j = CHR 0x00" by simp
    with that assms show False by (metis nth_mem)
  qed
  have len: "length ident \<le> length a"
  proof (rule ccontr)
    assume "\<not> length ident \<le> length a"
    then have "length a < length ident" by simp
    from inb [OF this] show False by simp
  qed
  have "take (length ident) a = ident"
    by (rule nth_equalityI) (use len eq inb in \<open>auto simp: c_char_at_def\<close>)
  then show "prefix ident a"
    by (metis take_is_prefix)
next
  assume "prefix ident a"
  then obtain r where "a = ident @ r" by (auto simp: prefix_def)
  then show "ut_string_begins_with a ident (length ident)"
    by (simp add: ut_string_begins_with_def ut_string_begins_with_from_iff c_char_at_def nth_append)
qed

lemma ut_new_get_key_by_base_file_from_find:
  "ut_new_get_key_by_base_file_from fname len i =
     (case find (\<lambda>j. ut_string_begins_with (auto_event_names ! j) fname len) [i..<n_auto] of
        None \<Rightarrow> - 1 | Some j \<Rightarrow> int j)"
proof (induction fname len i rule: ut_new_get_key_by_base_file_from.induct)
  case (1 fname len i)
  show ?case
  proof (cases "i < n_auto")
    case False
    then show ?thesis by (simp add: ut_new_get_key_by_base_file_from.simps [of fname len i])
  next
    case True
    then have upt: "[i..<n_auto] = i # [Suc i..<n_auto]" by (simp add: upt_conv_Cons)
    show ?thesis
    proof (cases "ut_string_begins_with (auto_event_names ! i) fname len")
      case True
      with \<open>i < n_auto\<close> upt show ?thesis
        by (simp add: ut_new_get_key_by_base_file_from.simps [of fname len i])
    next
      case False
      with \<open>i < n_auto\<close> upt "1.IH" show ?thesis
        by (simp add: ut_new_get_key_by_base_file_from.simps [of fname len i])
    qed
  qed
qed

lemma ut_len_without_extension_stripped:
  "CHR 0x00 \<notin> set ident \<Longrightarrow> CHR ''.'' \<notin> set ident \<Longrightarrow>
     ut_len_without_extension ident = length ident"
  by (induction ident) auto

lemma ut_new_get_key_by_file_find:
  assumes "CHR 0x00 \<notin> set ident" and "CHR ''.'' \<notin> set ident"
  shows "ut_new_get_key_by_file ident =
     (case find (\<lambda>i. prefix ident (auto_event_names ! i)) [0..<n_auto] of
        None \<Rightarrow> - 1 | Some i \<Rightarrow> int i)"
  using assms
  by (simp add: ut_new_get_key_by_file_def ut_new_get_key_by_base_file_def
      ut_len_without_extension_stripped ut_new_get_key_by_base_file_from_find
      ut_string_begins_with_prefix)

lemma find_first_beginning_with:
  "find (\<lambda>j. prefix ident (xs ! j)) [i..<length xs] = first_beginning_with ident (drop i xs) i"
proof (induction "length xs - i" arbitrary: i)
  case 0
  then show ?case by simp
next
  case (Suc d)
  then have lt: "i < length xs" and d: "d = length xs - Suc i" by auto
  from lt have dr: "drop i xs = xs ! i # drop (Suc i) xs"
    by (simp add: Cons_nth_drop_Suc)
  from lt have up: "[i..<length xs] = i # [Suc i..<length xs]"
    by (simp add: upt_conv_Cons)
  show ?case
    using Suc.hyps(1) [OF d] by (simp add: dr up)
qed

lemma find_in_table:
  "find (\<lambda>i. prefix ident (auto_event_names ! i)) [0..<n_auto] =
     first_beginning_with ident auto_event_names 0"
  using find_first_beginning_with [of ident auto_event_names 0] by (simp add: n_auto_def)

lemma scan_buf0buf: "first_beginning_with ''buf0buf'' auto_event_names 0 = Some 10"
  by (simp add: auto_event_names_def)

lemma scan_buf0buf_extra: "first_beginning_with ''buf0buf_extra'' auto_event_names 0 = None"
  by (simp add: auto_event_names_def)

lemma scan_zzz_unregistered: "first_beginning_with ''zzz_unregistered'' auto_event_names 0 = None"
  by (simp add: auto_event_names_def)

lemma scan_dict0stats: "first_beginning_with ''dict0stats'' auto_event_names 0 = Some 44"
  by (simp add: auto_event_names_def)

lemma index_of_buf0buf: "ut_new_get_key_by_file ''buf0buf'' = 10"
  by (simp add: ut_new_get_key_by_file_find find_in_table scan_buf0buf)

lemma index_of_buf0buf_extra: "ut_new_get_key_by_file ''buf0buf_extra'' = - 1"
  by (simp add: ut_new_get_key_by_file_find find_in_table scan_buf0buf_extra)

lemma index_of_zzz_unregistered: "ut_new_get_key_by_file ''zzz_unregistered'' = - 1"
  by (simp add: ut_new_get_key_by_file_find find_in_table scan_zzz_unregistered)

lemma entry_10: "auto_event_names ! 10 = ''buf0buf''"
  by (simp add: auto_event_names_def)

text \<open>
  C1 (as amended). For an identifier that is a base name with the extension stripped
  (no \<^verbatim>\<open>'\0'\<close>, no dot), the key of the call site is the key of the first table entry,
  in the order of the table, whose name begins with the identifier (the identifier is
  a prefix of the entry's name), and the not-instrumented key when no entry does. So
  \<open>buf0buf\<close> resolves to the key of the entry \<open>buf0buf\<close>, while the longer identifiers
  \<open>buf0buf_extra\<close> and \<open>zzz_unregistered\<close>, which no entry begins with, resolve to the
  not-instrumented key.
\<close>

theorem callsite_key_first_entry_beginning_with_identifier:
  assumes "CHR 0x00 \<notin> set ident" and "CHR ''.'' \<notin> set ident"
  shows "UT_NEW_THIS_FILE_PSI_KEY auto_event_keys ident =
           (case find (\<lambda>i. prefix ident (auto_event_names ! i)) [0..<n_auto] of
              None \<Rightarrow> PSI_NOT_INSTRUMENTED | Some i \<Rightarrow> auto_event_keys i)
         \<and> auto_event_names ! 10 = ''buf0buf''
         \<and> UT_NEW_THIS_FILE_PSI_KEY auto_event_keys ''buf0buf'' = auto_event_keys 10
         \<and> UT_NEW_THIS_FILE_PSI_KEY auto_event_keys ''buf0buf_extra'' = PSI_NOT_INSTRUMENTED
         \<and> UT_NEW_THIS_FILE_PSI_KEY auto_event_keys ''zzz_unregistered'' = PSI_NOT_INSTRUMENTED"
proof -
  have "UT_NEW_THIS_FILE_PSI_KEY auto_event_keys ident =
           (case find (\<lambda>i. prefix ident (auto_event_names ! i)) [0..<n_auto] of
              None \<Rightarrow> PSI_NOT_INSTRUMENTED | Some i \<Rightarrow> auto_event_keys i)"
    by (simp add: UT_NEW_THIS_FILE_PSI_KEY_def Let_def ut_new_get_key_by_file_find [OF assms]
        split: option.split)
  moreover have "UT_NEW_THIS_FILE_PSI_KEY auto_event_keys ''buf0buf'' = auto_event_keys 10"
    by (simp add: UT_NEW_THIS_FILE_PSI_KEY_def Let_def index_of_buf0buf)
  moreover have "UT_NEW_THIS_FILE_PSI_KEY auto_event_keys ''buf0buf_extra'' = PSI_NOT_INSTRUMENTED"
    by (simp add: UT_NEW_THIS_FILE_PSI_KEY_def Let_def index_of_buf0buf_extra)
  moreover have "UT_NEW_THIS_FILE_PSI_KEY auto_event_keys ''zzz_unregistered'' = PSI_NOT_INSTRUMENTED"
    by (simp add: UT_NEW_THIS_FILE_PSI_KEY_def Let_def index_of_zzz_unregistered)
  ultimately show ?thesis
    using entry_10 by simp
qed

text \<open>
  The theorem at the identifier \<open>dict0stats\<close>, which two entries begin with
  (\<open>dict0stats\<close> at index 44 and \<open>dict0stats_bg\<close> at 45): the first one wins. The key
  of entry \<open>i\<close> is taken to be \<open>i + 1\<close>.
\<close>

theorem callsite_key_first_entry_witness:
  "CHR 0x00 \<notin> set ''dict0stats'' \<and> CHR ''.'' \<notin> set ''dict0stats''
   \<and> auto_event_names ! 44 = ''dict0stats'' \<and> auto_event_names ! 45 = ''dict0stats_bg''
   \<and> UT_NEW_THIS_FILE_PSI_KEY Suc ''dict0stats'' = 45"
proof -
  have h0: "CHR 0x00 \<notin> set ''dict0stats''" by simp
  have h1: "CHR ''.'' \<notin> set ''dict0stats''" by simp
  have f: "find (\<lambda>i. prefix ''dict0stats'' (auto_event_names ! i)) [0..<n_auto] = Some 44"
    by (simp add: find_in_table scan_dict0stats)
  have e44: "auto_event_names ! 44 = ''dict0stats''"
    by (simp add: auto_event_names_def)
  have e45: "auto_event_names ! 45 = ''dict0stats_bg''"
    by (simp add: auto_event_names_def)
  from callsite_key_first_entry_beginning_with_identifier [OF h0 h1, of Suc] f e44 e45 h0 h1
  show ?thesis by simp
qed

text \<open>
  C1 as stated fails: the entry \<open>buf0buf\<close> is a prefix of the identifier
  \<open>buf0buf_extra\<close>, and the lookup finds no entry for that identifier. (Nor is the
  table alphabetical throughout: \<open>ddl0rtree\<close> stands before \<open>ddl0par-scan\<close>.)
\<close>

theorem longer_identifier_not_resolved_counterexample:
  "auto_event_names ! 10 = ''buf0buf'' \<and> prefix ''buf0buf'' ''buf0buf_extra''
   \<and> ut_new_get_key_by_file ''buf0buf_extra'' = - 1
   \<and> auto_event_names ! 33 = ''ddl0rtree'' \<and> auto_event_names ! 34 = ''ddl0par-scan''"
proof -
  have "prefix ''buf0buf'' ''buf0buf_extra''" by simp
  moreover have "auto_event_names ! 33 = ''ddl0rtree''"
    by (simp add: auto_event_names_def)
  moreover have "auto_event_names ! 34 = ''ddl0par-scan''"
    by (simp add: auto_event_names_def)
  ultimately show ?thesis
    using entry_10 index_of_buf0buf_extra by simp
qed

section \<open>The container adapter\<close>


lemma max_size_iff:
  "0 < sT \<Longrightarrow> n \<le> max_size sT \<longleftrightarrow> n * sT + sizeof_ut_new_pfx_t \<le> SIZE_MAX"
proof -
  assume pos: "0 < sT"
  have "n \<le> (SIZE_MAX - sizeof_ut_new_pfx_t) div sT \<longleftrightarrow> n * sT \<le> SIZE_MAX - sizeof_ut_new_pfx_t"
    using pos by (simp add: less_eq_div_iff_mult_less_eq)
  moreover have "sizeof_ut_new_pfx_t \<le> SIZE_MAX"
    by (simp add: sizeof_ut_new_pfx_t_def SIZE_MAX_def)
  ultimately show ?thesis
    unfolding max_size_def by linarith
qed

lemma max_size_no_overflow:
  assumes "n \<le> max_size sT"
  shows "n * sT + sizeof_ut_new_pfx_t \<le> SIZE_MAX"
proof (cases "sT = 0")
  case True
  then show ?thesis by (simp add: sizeof_ut_new_pfx_t_def SIZE_MAX_def)
next
  case False
  with assms show ?thesis by (simp add: max_size_iff)
qed

lemma total_bytes_exact:
  assumes "n \<le> max_size sT"
  shows "size_t_add (size_t_mul n sT) sizeof_ut_new_pfx_t = n * sT + sizeof_ut_new_pfx_t"
proof -
  from max_size_no_overflow [OF assms]
  have b: "n * sT + sizeof_ut_new_pfx_t < 2 ^ 64" by (simp add: SIZE_MAX_def)
  then have "n * sT < 2 ^ 64" by simp
  with b show ?thesis by (simp add: size_t_add_def size_t_mul_def)
qed

lemma allocate_retry_fails:
  "(\<forall>k. k \<le> alloc_max_retries - r \<longrightarrow> os_answer E (os_calls s + k) = nullptr) \<Longrightarrow>
   allocate_retry E z t r s =
     (nullptr, s\<lparr>os_calls := os_calls s + Suc (alloc_max_retries - r),
                events := events s
                  @ concat (replicate (alloc_max_retries - r) [os_attempt z t nullptr, Sleep_for_seconds 1])
                  @ [os_attempt z t nullptr]\<rparr>)"
proof (induction "alloc_max_retries - r" arbitrary: r s)
  case 0
  then have "os_answer E (os_calls s) = nullptr" "alloc_max_retries \<le> r"
    by auto
  with 0 show ?case
    by (simp add: allocate_retry.simps [of E z t r s] Let_def emit_def os_attempt_def)
next
  case (Suc m)
  from Suc.hyps(2) have r: "\<not> alloc_max_retries \<le> r" and m: "m = alloc_max_retries - Suc r"
    by auto
  from Suc.prems have a0: "os_answer E (os_calls s) = nullptr"
    by (metis add.right_neutral le0)
  let ?s1 = "emit [Sleep_for_seconds 1] (emit [os_attempt z t nullptr] (s\<lparr>os_calls := Suc (os_calls s)\<rparr>))"
  have step: "allocate_retry E z t r s = allocate_retry E z t (Suc r) ?s1"
    using a0 r by (simp add: allocate_retry.simps [of E z t r s] Let_def os_attempt_def)
  have "\<forall>k. k \<le> alloc_max_retries - Suc r \<longrightarrow> os_answer E (os_calls ?s1 + k) = nullptr"
  proof (intro allI impI)
    fix k assume "k \<le> alloc_max_retries - Suc r"
    then have "Suc k \<le> alloc_max_retries - r" using r by simp
    with Suc.prems have "os_answer E (os_calls s + Suc k) = nullptr" by blast
    then show "os_answer E (os_calls ?s1 + k) = nullptr" by (simp add: emit_def)
  qed
  from Suc.hyps(1) [OF m this] step Suc.hyps(2) [symmetric] m [symmetric]
  show ?case
    by (simp add: emit_def)
qed

lemma allocate_retry_calls:
  "os_calls (snd (allocate_retry E z t r s)) \<le> os_calls s + Suc (alloc_max_retries - r)"
proof (induction E z t r s rule: allocate_retry.induct)
  case (1 E z t r s)
  show ?case
  proof (cases "os_answer E (os_calls s) \<noteq> nullptr \<or> alloc_max_retries \<le> r")
    case True
    then show ?thesis
      by (auto simp: allocate_retry.simps [of E z t r s] Let_def emit_def)
  next
    case False
    with "1.IH" [OF refl refl False] show ?thesis
      by (auto simp: allocate_retry.simps [of E z t r s] Let_def emit_def)
  qed
qed

lemma allocate_retry_shape:
  "\<exists>j\<le>alloc_max_retries - r.
     allocate_retry E z t r s =
       (os_answer E (os_calls s + j),
        s\<lparr>os_calls := os_calls s + Suc j,
          events := events s
            @ concat (replicate j [os_attempt z t nullptr, Sleep_for_seconds 1])
            @ [os_attempt z t (os_answer E (os_calls s + j))]\<rparr>)
     \<and> (os_answer E (os_calls s + j) = nullptr \<longrightarrow> j = alloc_max_retries - r)"
proof (induction E z t r s rule: allocate_retry.induct)
  case (1 E z t r s)
  show ?case
  proof (cases "os_answer E (os_calls s) \<noteq> nullptr \<or> alloc_max_retries \<le> r")
    case True
    then have "allocate_retry E z t r s =
       (os_answer E (os_calls s + 0),
        s\<lparr>os_calls := os_calls s + Suc 0,
          events := events s
            @ concat (replicate 0 [os_attempt z t nullptr, Sleep_for_seconds 1])
            @ [os_attempt z t (os_answer E (os_calls s + 0))]\<rparr>)
     \<and> (os_answer E (os_calls s + 0) = nullptr \<longrightarrow> 0 = alloc_max_retries - r)"
      by (auto simp: allocate_retry.simps [of E z t r s] Let_def emit_def os_attempt_def)
    then show ?thesis by blast
  next
    case False
    then have a0: "os_answer E (os_calls s) = nullptr" and r: "r < alloc_max_retries"
      by auto
    let ?s1 = "emit [Sleep_for_seconds 1] (emit [os_attempt z t nullptr] (s\<lparr>os_calls := Suc (os_calls s)\<rparr>))"
    have step: "allocate_retry E z t r s = allocate_retry E z t (Suc r) ?s1"
      using a0 r by (simp add: allocate_retry.simps [of E z t r s] Let_def os_attempt_def)
    have "\<exists>j\<le>alloc_max_retries - Suc r.
     allocate_retry E z t (Suc r) ?s1 =
       (os_answer E (os_calls ?s1 + j),
        ?s1\<lparr>os_calls := os_calls ?s1 + Suc j,
          events := events ?s1
            @ concat (replicate j [os_attempt z t nullptr, Sleep_for_seconds 1])
            @ [os_attempt z t (os_answer E (os_calls ?s1 + j))]\<rparr>)
     \<and> (os_answer E (os_calls ?s1 + j) = nullptr \<longrightarrow> j = alloc_max_retries - Suc r)"
      using "1.IH" [OF refl refl False] unfolding os_attempt_def a0 .
    then obtain j where j: "j \<le> alloc_max_retries - Suc r"
      and eq: "allocate_retry E z t (Suc r) ?s1 =
       (os_answer E (os_calls ?s1 + j),
        ?s1\<lparr>os_calls := os_calls ?s1 + Suc j,
          events := events ?s1
            @ concat (replicate j [os_attempt z t nullptr, Sleep_for_seconds 1])
            @ [os_attempt z t (os_answer E (os_calls ?s1 + j))]\<rparr>)"
      and last: "os_answer E (os_calls ?s1 + j) = nullptr \<longrightarrow> j = alloc_max_retries - Suc r"
      by blast
    have "Suc j \<le> alloc_max_retries - r" using j r by simp
    moreover have "allocate_retry E z t r s =
       (os_answer E (os_calls s + Suc j),
        s\<lparr>os_calls := os_calls s + Suc (Suc j),
          events := events s
            @ concat (replicate (Suc j) [os_attempt z t nullptr, Sleep_for_seconds 1])
            @ [os_attempt z t (os_answer E (os_calls s + Suc j))]\<rparr>)"
      using step eq by (simp add: emit_def)
    moreover have "os_answer E (os_calls s + Suc j) = nullptr \<longrightarrow> Suc j = alloc_max_retries - r"
      using last r by (auto simp: emit_def)
    ultimately show ?thesis by blast
  qed
qed

lemma reallocate_retry_shape:
  "\<exists>j\<le>alloc_max_retries - r.
     reallocate_retry E pfx_old t r s =
       (os_answer E (os_calls s + j),
        s\<lparr>os_calls := os_calls s + Suc j,
          pfx_mem := (if os_answer E (os_calls s + j) \<noteq> nullptr
                      then (pfx_mem s)(os_answer E (os_calls s + j) := pfx_mem s pfx_old)
                      else pfx_mem s),
          events := events s
            @ concat (replicate j [Os_realloc pfx_old t nullptr, Sleep_for_seconds 1])
            @ [Os_realloc pfx_old t (os_answer E (os_calls s + j))]\<rparr>)
     \<and> (os_answer E (os_calls s + j) = nullptr \<longrightarrow> j = alloc_max_retries - r)"
proof (induction E pfx_old t r s rule: reallocate_retry.induct)
  case (1 E pfx_old t r s)
  show ?case
  proof (cases "os_answer E (os_calls s) \<noteq> nullptr \<or> alloc_max_retries \<le> r")
    case True
    then have "reallocate_retry E pfx_old t r s =
       (os_answer E (os_calls s + 0),
        s\<lparr>os_calls := os_calls s + Suc 0,
          pfx_mem := (if os_answer E (os_calls s + 0) \<noteq> nullptr
                      then (pfx_mem s)(os_answer E (os_calls s + 0) := pfx_mem s pfx_old)
                      else pfx_mem s),
          events := events s
            @ concat (replicate 0 [Os_realloc pfx_old t nullptr, Sleep_for_seconds 1])
            @ [Os_realloc pfx_old t (os_answer E (os_calls s + 0))]\<rparr>)
     \<and> (os_answer E (os_calls s + 0) = nullptr \<longrightarrow> 0 = alloc_max_retries - r)"
      by (auto simp: reallocate_retry.simps [of E pfx_old t r s] Let_def emit_def)
    then show ?thesis by blast
  next
    case False
    then have a0: "os_answer E (os_calls s) = nullptr" and r: "r < alloc_max_retries"
      by auto
    let ?s1 = "emit [Sleep_for_seconds 1]
                 (emit [Os_realloc pfx_old t nullptr] (s\<lparr>os_calls := Suc (os_calls s)\<rparr>))"
    have s1: "emit [Sleep_for_seconds 1]
        (emit [Os_realloc pfx_old t (os_answer E (os_calls s))]
          (s\<lparr>os_calls := Suc (os_calls s),
             pfx_mem := (if os_answer E (os_calls s) \<noteq> nullptr
                  then (pfx_mem s)(os_answer E (os_calls s) := pfx_mem s pfx_old)
                  else pfx_mem s)\<rparr>)) = ?s1"
      using a0 by (simp add: emit_def)
    have step: "reallocate_retry E pfx_old t r s = reallocate_retry E pfx_old t (Suc r) ?s1"
      using a0 r by (simp add: reallocate_retry.simps [of E pfx_old t r s] Let_def emit_def)
    have "\<exists>j\<le>alloc_max_retries - Suc r.
     reallocate_retry E pfx_old t (Suc r) ?s1 =
       (os_answer E (os_calls ?s1 + j),
        ?s1\<lparr>os_calls := os_calls ?s1 + Suc j,
          pfx_mem := (if os_answer E (os_calls ?s1 + j) \<noteq> nullptr
                      then (pfx_mem ?s1)(os_answer E (os_calls ?s1 + j) := pfx_mem ?s1 pfx_old)
                      else pfx_mem ?s1),
          events := events ?s1
            @ concat (replicate j [Os_realloc pfx_old t nullptr, Sleep_for_seconds 1])
            @ [Os_realloc pfx_old t (os_answer E (os_calls ?s1 + j))]\<rparr>)
     \<and> (os_answer E (os_calls ?s1 + j) = nullptr \<longrightarrow> j = alloc_max_retries - Suc r)"
      using "1.IH" [OF refl refl False] unfolding s1 .
    then obtain j where j: "j \<le> alloc_max_retries - Suc r"
      and eq: "reallocate_retry E pfx_old t (Suc r) ?s1 =
       (os_answer E (os_calls ?s1 + j),
        ?s1\<lparr>os_calls := os_calls ?s1 + Suc j,
          pfx_mem := (if os_answer E (os_calls ?s1 + j) \<noteq> nullptr
                      then (pfx_mem ?s1)(os_answer E (os_calls ?s1 + j) := pfx_mem ?s1 pfx_old)
                      else pfx_mem ?s1),
          events := events ?s1
            @ concat (replicate j [Os_realloc pfx_old t nullptr, Sleep_for_seconds 1])
            @ [Os_realloc pfx_old t (os_answer E (os_calls ?s1 + j))]\<rparr>)"
      and last: "os_answer E (os_calls ?s1 + j) = nullptr \<longrightarrow> j = alloc_max_retries - Suc r"
      by blast
    have "Suc j \<le> alloc_max_retries - r" using j r by simp
    moreover have "reallocate_retry E pfx_old t r s =
       (os_answer E (os_calls s + Suc j),
        s\<lparr>os_calls := os_calls s + Suc (Suc j),
          pfx_mem := (if os_answer E (os_calls s + Suc j) \<noteq> nullptr
                      then (pfx_mem s)(os_answer E (os_calls s + Suc j) := pfx_mem s pfx_old)
                      else pfx_mem s),
          events := events s
            @ concat (replicate (Suc j) [Os_realloc pfx_old t nullptr, Sleep_for_seconds 1])
            @ [Os_realloc pfx_old t (os_answer E (os_calls s + Suc j))]\<rparr>)"
      using step eq by (simp add: emit_def)
    moreover have "os_answer E (os_calls s + Suc j) = nullptr \<longrightarrow> Suc j = alloc_max_retries - r"
      using last r by (auto simp: emit_def)
    ultimately show ?thesis by blast
  qed
qed

lemma allocate_retry_first_ok:
  "os_answer E (os_calls s) \<noteq> nullptr \<Longrightarrow>
   allocate_retry E z t r s =
     (os_answer E (os_calls s),
      emit [if z then Os_calloc 1 t (os_answer E (os_calls s)) else Os_malloc t (os_answer E (os_calls s))]
        (s\<lparr>os_calls := Suc (os_calls s)\<rparr>))"
  by (simp add: allocate_retry.simps [of E z t r s] Let_def)

lemma allocate_cases:
  "(\<exists>s'. allocate E a sT n key z s = (Inl Bad_array_new_length, s'))
   \<or> (\<exists>s'. allocate E a sT n key z s = (Inl Bad_alloc, s'))
   \<or> (\<exists>p s'. allocate E a sT n key z s = (Inr p, s') \<and> p \<noteq> nullptr)"
  by (auto simp: allocate_def Let_def nullptr_def sizeof_ut_new_pfx_t_def split: prod.splits)

lemma allocate_all_fail:
  assumes "n \<le> max_size sT"
    and "\<forall>k<alloc_max_retries. os_answer E (os_calls s + k) = nullptr"
  shows "allocate E a sT n key z s =
     (Inl Bad_alloc,
      s\<lparr>os_calls := os_calls s + alloc_max_retries,
        events := events s
          @ concat (replicate (alloc_max_retries - 1)
              [os_attempt z (n * sT + sizeof_ut_new_pfx_t) nullptr, Sleep_for_seconds 1])
          @ [os_attempt z (n * sT + sizeof_ut_new_pfx_t) nullptr]\<rparr>)"
proof -
  have pos: "0 < alloc_max_retries" by (simp add: alloc_max_retries_def)
  have "\<forall>k. k \<le> alloc_max_retries - 1 \<longrightarrow> os_answer E (os_calls s + k) = nullptr"
    using assms(2) pos by auto
  from allocate_retry_fails [OF this, of z "n * sT + sizeof_ut_new_pfx_t"] pos assms(1)
  show ?thesis
    by (simp add: allocate_def Let_def total_bytes_exact)
qed

lemma allocate_calls:
  "os_calls (snd (allocate E a sT n key z s)) \<le> os_calls s + alloc_max_retries"
proof -
  have pos: "0 < alloc_max_retries" by (simp add: alloc_max_retries_def)
  have "os_calls (snd (allocate_retry E z t 1 s)) \<le> os_calls s + alloc_max_retries" for t
    using allocate_retry_calls [of E z t 1 s] pos by simp
  then show ?thesis
    by (auto simp: allocate_def Let_def allocate_trace_def emit_def split: prod.splits)
       (metis snd_conv)+
qed

text \<open>
  C5. \<^verbatim>\<open>allocate\<close> never returns a null pointer: it throws
  \<^verbatim>\<open>std::bad_array_new_length\<close>, or throws \<^verbatim>\<open>std::bad_alloc\<close>, or returns a pointer that
  is not null. For a count above \<^verbatim>\<open>max_size()\<close> (exactly when the bytes of the
  elements plus the header exceed \<^verbatim>\<open>SIZE_MAX\<close>) it throws without calling the OS
  allocator, and when every one of the \<open>alloc_max_retries\<close> attempts fails it throws
  \<^verbatim>\<open>std::bad_alloc\<close>.
\<close>

theorem allocate_never_returns_null:
  "((\<exists>s'. allocate E a sT n key z s = (Inl Bad_array_new_length, s'))
      \<or> (\<exists>s'. allocate E a sT n key z s = (Inl Bad_alloc, s'))
      \<or> (\<exists>p s'. allocate E a sT n key z s = (Inr p, s') \<and> p \<noteq> nullptr))
   \<and> (n > max_size sT \<longrightarrow> allocate E a sT n key z s = (Inl Bad_array_new_length, s))
   \<and> (0 < sT \<longrightarrow> (n > max_size sT \<longleftrightarrow> n * sT + sizeof_ut_new_pfx_t > SIZE_MAX))
   \<and> (n \<le> max_size sT \<and> (\<forall>k<alloc_max_retries. os_answer E (os_calls s + k) = nullptr)
        \<longrightarrow> fst (allocate E a sT n key z s) = Inl Bad_alloc)"
proof -
  have "n > max_size sT \<longrightarrow> allocate E a sT n key z s = (Inl Bad_array_new_length, s)"
    by (simp add: allocate_def)
  moreover have "0 < sT \<longrightarrow> (n > max_size sT \<longleftrightarrow> n * sT + sizeof_ut_new_pfx_t > SIZE_MAX)"
    using max_size_iff [of sT n] by auto
  moreover have "n \<le> max_size sT \<and> (\<forall>k<alloc_max_retries. os_answer E (os_calls s + k) = nullptr)
        \<longrightarrow> fst (allocate E a sT n key z s) = Inl Bad_alloc"
    using allocate_all_fail [of n sT E s a key z] by simp
  ultimately show ?thesis
    using allocate_cases [of E a sT n key z s] by blast
qed

text \<open>
  The theorem at \<open>2 ^ 61\<close> elements of 8 bytes (too many), and at 3 elements of 8
  bytes on an OS allocator that always fails.
\<close>

theorem allocate_never_returns_null_witness:
  "max_size 8 < 2 ^ 61 \<and> (0::nat) < 8 \<and> SIZE_MAX < 2 ^ 61 * 8 + sizeof_ut_new_pfx_t
   \<and> allocate generous_os \<lparr>alloc_key = 0\<rparr> 8 (2 ^ 61) 5 False example_state
       = (Inl Bad_array_new_length, example_state)
   \<and> 3 \<le> max_size 8
   \<and> fst (allocate failing_os \<lparr>alloc_key = 0\<rparr> 8 3 5 False example_state) = Inl Bad_alloc"
proof -
  have big: "max_size 8 < 2 ^ 61"
    by (simp add: max_size_def SIZE_MAX_def sizeof_ut_new_pfx_t_def)
  have small: "3 \<le> max_size 8"
    by (simp add: max_size_def SIZE_MAX_def sizeof_ut_new_pfx_t_def)
  have over: "SIZE_MAX < 2 ^ 61 * 8 + sizeof_ut_new_pfx_t"
    by (simp add: SIZE_MAX_def sizeof_ut_new_pfx_t_def)
  have fails: "\<forall>k<alloc_max_retries. os_answer failing_os (os_calls example_state + k) = nullptr"
    by (simp add: failing_os_def)
  from allocate_never_returns_null
      [of generous_os "\<lparr>alloc_key = 0\<rparr>" 8 "2 ^ 61" 5 False example_state] big
  have "allocate generous_os \<lparr>alloc_key = 0\<rparr> 8 (2 ^ 61) 5 False example_state
       = (Inl Bad_array_new_length, example_state)"
    by blast
  moreover from allocate_never_returns_null
      [of failing_os "\<lparr>alloc_key = 0\<rparr>" 8 3 5 False example_state] small fails
  have "fst (allocate failing_os \<lparr>alloc_key = 0\<rparr> 8 3 5 False example_state) = Inl Bad_alloc"
    by blast
  ultimately show ?thesis
    using big small over by simp
qed

lemma reallocate_all_fail:
  assumes "n \<le> max_size sT" and "ptr \<noteq> nullptr" and "n \<noteq> 0"
    and "\<forall>k<alloc_max_retries. os_answer E (os_calls s + k) = nullptr"
  shows "reallocate E a sT ptr n key s =
     (Inr nullptr,
      s\<lparr>os_calls := os_calls s + alloc_max_retries,
        events := events s
          @ concat (replicate (alloc_max_retries - 1)
              [Os_realloc (ptr - sizeof_ut_new_pfx_t) (n * sT + sizeof_ut_new_pfx_t) nullptr,
               Sleep_for_seconds 1])
          @ [Os_realloc (ptr - sizeof_ut_new_pfx_t) (n * sT + sizeof_ut_new_pfx_t) nullptr]\<rparr>)"
proof -
  have pos: "0 < alloc_max_retries" by (simp add: alloc_max_retries_def)
  from reallocate_retry_shape [of 1 E "ptr - sizeof_ut_new_pfx_t" "n * sT + sizeof_ut_new_pfx_t" s]
  obtain j where j: "j \<le> alloc_max_retries - 1"
    and eq: "reallocate_retry E (ptr - sizeof_ut_new_pfx_t) (n * sT + sizeof_ut_new_pfx_t) 1 s =
       (os_answer E (os_calls s + j),
        s\<lparr>os_calls := os_calls s + Suc j,
          pfx_mem := (if os_answer E (os_calls s + j) \<noteq> nullptr
                      then (pfx_mem s)(os_answer E (os_calls s + j) := pfx_mem s (ptr - sizeof_ut_new_pfx_t))
                      else pfx_mem s),
          events := events s
            @ concat (replicate j [Os_realloc (ptr - sizeof_ut_new_pfx_t) (n * sT + sizeof_ut_new_pfx_t) nullptr, Sleep_for_seconds 1])
            @ [Os_realloc (ptr - sizeof_ut_new_pfx_t) (n * sT + sizeof_ut_new_pfx_t) (os_answer E (os_calls s + j))]\<rparr>)"
    and last: "os_answer E (os_calls s + j) = nullptr \<longrightarrow> j = alloc_max_retries - 1"
    by blast
  from j pos have "j < alloc_max_retries" by simp
  with assms(4) have null: "os_answer E (os_calls s + j) = nullptr" by blast
  with last have jj: "j = alloc_max_retries - 1" by blast
  with pos have sj: "Suc j = alloc_max_retries" by simp
  show ?thesis
    using assms(1-3) eq null sj jj
    by (simp add: reallocate_def Let_def total_bytes_exact)
qed

lemma reallocate_calls:
  "os_calls (snd (reallocate E a sT ptr n key s)) \<le> os_calls s + alloc_max_retries"
proof -
  have pos: "0 < alloc_max_retries" by (simp add: alloc_max_retries_def)
  have retry: "os_calls (snd (reallocate_retry E q t 1 s)) \<le> os_calls s + alloc_max_retries" for q t
  proof -
    from reallocate_retry_shape [of 1 E q t s]
    obtain j where "j \<le> alloc_max_retries - 1"
      and "os_calls (snd (reallocate_retry E q t 1 s)) = os_calls s + Suc j"
      by force
    with pos show ?thesis by simp
  qed
  have dealloc: "os_calls (deallocate ptr s) = os_calls s"
    by (simp add: deallocate_def deallocate_trace_def emit_def Let_def)
  show ?thesis
  proof (cases "n = 0")
    case True
    then show ?thesis by (simp add: reallocate_def dealloc)
  next
    case n: False
    show ?thesis
    proof (cases "ptr = nullptr")
      case True
      with n show ?thesis by (simp add: reallocate_def allocate_calls)
    next
      case p: False
      show ?thesis
      proof (cases "n > max_size sT")
        case True
        with n p show ?thesis by (simp add: reallocate_def)
      next
        case False
        with n p retry [of "ptr - sizeof_ut_new_pfx_t" "size_t_add (size_t_mul n sT) sizeof_ut_new_pfx_t"]
        show ?thesis
          by (auto simp: reallocate_def Let_def allocate_trace_def deallocate_trace_def emit_def
              split: prod.splits)
      qed
    qed
  qed
qed

lemma reallocate_null_all_fail:
  assumes "n \<le> max_size sT" and "n \<noteq> 0"
    and "\<forall>k<alloc_max_retries. os_answer E (os_calls s + k) = nullptr"
  shows "reallocate E a sT nullptr n key s =
     (Inl Bad_alloc,
      s\<lparr>os_calls := os_calls s + alloc_max_retries,
        events := events s
          @ concat (replicate (alloc_max_retries - 1)
              [os_attempt False (n * sT + sizeof_ut_new_pfx_t) nullptr, Sleep_for_seconds 1])
          @ [os_attempt False (n * sT + sizeof_ut_new_pfx_t) nullptr]\<rparr>)"
proof -
  have "reallocate E a sT nullptr n key s = allocate E a sT n key False s"
    using assms(2) by (simp add: reallocate_def)
  with allocate_all_fail [OF assms(1,3), of a key False] show ?thesis by simp
qed

text \<open>
  C7 (as amended). Whatever the OS allocator answers, \<^verbatim>\<open>allocate\<close> and \<^verbatim>\<open>reallocate\<close>
  call it at most \<open>alloc_max_retries\<close> times and return (the retry loops are total
  functions). When it answers failure to each of these calls, the run is
  \<open>alloc_max_retries\<close> attempts with a sleep of one second between consecutive attempts
  and none after the last; then \<^verbatim>\<open>allocate\<close> throws \<^verbatim>\<open>std::bad_alloc\<close>, \<^verbatim>\<open>reallocate\<close>
  of a block (a pointer that is not null) to a count that is not zero returns a null
  pointer, and \<^verbatim>\<open>reallocate\<close> of a null pointer to a count that is not zero, which is
  \<^verbatim>\<open>allocate\<close>, throws \<^verbatim>\<open>std::bad_alloc\<close>.
\<close>

theorem retry_is_bounded:
  "os_calls (snd (allocate E a sT n key z s)) \<le> os_calls s + alloc_max_retries
   \<and> os_calls (snd (reallocate E a sT ptr n key s)) \<le> os_calls s + alloc_max_retries
   \<and> (n \<le> max_size sT \<and> (\<forall>k<alloc_max_retries. os_answer E (os_calls s + k) = nullptr) \<longrightarrow>
        allocate E a sT n key z s =
          (Inl Bad_alloc,
           s\<lparr>os_calls := os_calls s + alloc_max_retries,
             events := events s
               @ concat (replicate (alloc_max_retries - 1)
                   [os_attempt z (n * sT + sizeof_ut_new_pfx_t) nullptr, Sleep_for_seconds 1])
               @ [os_attempt z (n * sT + sizeof_ut_new_pfx_t) nullptr]\<rparr>)
        \<and> (ptr \<noteq> nullptr \<and> n \<noteq> 0 \<longrightarrow>
             reallocate E a sT ptr n key s =
               (Inr nullptr,
                s\<lparr>os_calls := os_calls s + alloc_max_retries,
                  events := events s
                    @ concat (replicate (alloc_max_retries - 1)
                        [Os_realloc (ptr - sizeof_ut_new_pfx_t) (n * sT + sizeof_ut_new_pfx_t) nullptr,
                         Sleep_for_seconds 1])
                    @ [Os_realloc (ptr - sizeof_ut_new_pfx_t) (n * sT + sizeof_ut_new_pfx_t) nullptr]\<rparr>))
        \<and> (n \<noteq> 0 \<longrightarrow>
             reallocate E a sT nullptr n key s =
               (Inl Bad_alloc,
                s\<lparr>os_calls := os_calls s + alloc_max_retries,
                  events := events s
                    @ concat (replicate (alloc_max_retries - 1)
                        [os_attempt False (n * sT + sizeof_ut_new_pfx_t) nullptr, Sleep_for_seconds 1])
                    @ [os_attempt False (n * sT + sizeof_ut_new_pfx_t) nullptr]\<rparr>)))"
  using allocate_calls [of E a sT n key z s] reallocate_calls [of E a sT ptr n key s]
    allocate_all_fail [of n sT E s a key z] reallocate_all_fail [of n sT ptr E s a key]
    reallocate_null_all_fail [of n sT E s a key]
  by blast

text \<open>
  The theorem on an OS allocator that always fails: 60 attempts, 59 sleeps, for
  \<^verbatim>\<open>allocate\<close>, for \<^verbatim>\<open>reallocate\<close> of the block at 4128 and for \<^verbatim>\<open>reallocate\<close> of a null
  pointer.
\<close>

theorem retry_is_bounded_witness:
  "3 \<le> max_size 8 \<and> 4128 \<noteq> nullptr \<and> (3::nat) \<noteq> 0
   \<and> allocate failing_os \<lparr>alloc_key = 0\<rparr> 8 3 5 False example_state =
       (Inl Bad_alloc,
        example_state\<lparr>os_calls := 60,
          events := concat (replicate 59 [Os_malloc 56 nullptr, Sleep_for_seconds 1])
                    @ [Os_malloc 56 nullptr]\<rparr>)
   \<and> reallocate failing_os \<lparr>alloc_key = 0\<rparr> 8 4128 3 5 example_state =
       (Inr nullptr,
        example_state\<lparr>os_calls := 60,
          events := concat (replicate 59 [Os_realloc 4096 56 nullptr, Sleep_for_seconds 1])
                    @ [Os_realloc 4096 56 nullptr]\<rparr>)
   \<and> reallocate failing_os \<lparr>alloc_key = 0\<rparr> 8 nullptr 3 5 example_state =
       (Inl Bad_alloc,
        example_state\<lparr>os_calls := 60,
          events := concat (replicate 59 [Os_malloc 56 nullptr, Sleep_for_seconds 1])
                    @ [Os_malloc 56 nullptr]\<rparr>)"
proof -
  have small: "3 \<le> max_size 8"
    by (simp add: max_size_def SIZE_MAX_def sizeof_ut_new_pfx_t_def)
  have fails: "\<forall>k<alloc_max_retries. os_answer failing_os (os_calls example_state + k) = nullptr"
    by (simp add: failing_os_def)
  have nn: "(4128::nat) \<noteq> nullptr" by (simp add: nullptr_def)
  from retry_is_bounded [of failing_os "\<lparr>alloc_key = 0\<rparr>" 8 3 5 False example_state 4128]
    small fails nn
  have "allocate failing_os \<lparr>alloc_key = 0\<rparr> 8 3 5 False example_state =
          (Inl Bad_alloc,
           example_state\<lparr>os_calls := os_calls example_state + alloc_max_retries,
             events := events example_state
               @ concat (replicate (alloc_max_retries - 1)
                   [os_attempt False (3 * 8 + sizeof_ut_new_pfx_t) nullptr, Sleep_for_seconds 1])
               @ [os_attempt False (3 * 8 + sizeof_ut_new_pfx_t) nullptr]\<rparr>)"
    and "reallocate failing_os \<lparr>alloc_key = 0\<rparr> 8 4128 3 5 example_state =
               (Inr nullptr,
                example_state\<lparr>os_calls := os_calls example_state + alloc_max_retries,
                  events := events example_state
                    @ concat (replicate (alloc_max_retries - 1)
                        [Os_realloc (4128 - sizeof_ut_new_pfx_t) (3 * 8 + sizeof_ut_new_pfx_t) nullptr,
                         Sleep_for_seconds 1])
                    @ [Os_realloc (4128 - sizeof_ut_new_pfx_t) (3 * 8 + sizeof_ut_new_pfx_t) nullptr]\<rparr>)"
    and "reallocate failing_os \<lparr>alloc_key = 0\<rparr> 8 nullptr 3 5 example_state =
               (Inl Bad_alloc,
                example_state\<lparr>os_calls := os_calls example_state + alloc_max_retries,
                  events := events example_state
                    @ concat (replicate (alloc_max_retries - 1)
                        [os_attempt False (3 * 8 + sizeof_ut_new_pfx_t) nullptr, Sleep_for_seconds 1])
                    @ [os_attempt False (3 * 8 + sizeof_ut_new_pfx_t) nullptr]\<rparr>)"
    by simp_all
  moreover have "os_calls example_state = 0" "events example_state = []"
    by (simp_all add: example_state_def)
  ultimately show ?thesis
    using small nn
    by (simp add: alloc_max_retries_def sizeof_ut_new_pfx_t_def os_attempt_def)
qed

text \<open>
  C7 as stated fails for \<^verbatim>\<open>reallocate\<close> of a null pointer: on an OS allocator that
  always fails, \<^verbatim>\<open>reallocate(nullptr, 3, key)\<close> does not return a null pointer, it
  throws \<^verbatim>\<open>std::bad_alloc\<close> after its 60 attempts.
\<close>

theorem reallocate_null_throws_counterexample:
  "reallocate failing_os \<lparr>alloc_key = 0\<rparr> 8 nullptr 3 5 example_state =
     (Inl Bad_alloc,
      example_state\<lparr>os_calls := 60,
        events := concat (replicate 59 [Os_malloc 56 nullptr, Sleep_for_seconds 1])
                  @ [Os_malloc 56 nullptr]\<rparr>)"
proof -
  have small: "3 \<le> max_size 8"
    by (simp add: max_size_def SIZE_MAX_def sizeof_ut_new_pfx_t_def)
  have fails: "\<forall>k<alloc_max_retries. os_answer failing_os (os_calls example_state + k) = nullptr"
    by (simp add: failing_os_def)
  have "os_calls example_state = 0" "events example_state = []"
    by (simp_all add: example_state_def)
  with reallocate_null_all_fail [OF small _ fails, of "\<lparr>alloc_key = 0\<rparr>" 5]
  show ?thesis
    by (simp add: alloc_max_retries_def sizeof_ut_new_pfx_t_def os_attempt_def)
qed

text \<open>
  C8. A successful \<^verbatim>\<open>allocate(n)\<close>, for \<open>n\<close> not above \<^verbatim>\<open>max_size()\<close>, leaves at the
  address \<open>sizeof(ut_new_pfx_t)\<close> before the pointer it returns a header whose
  \<open>m_size\<close> is \<open>n * sizeof(T) + sizeof(ut_new_pfx_t)\<close> (with the key and owner the
  performance schema gave), and \<^verbatim>\<open>n_elements_allocated\<close> on that pointer is \<open>n\<close>.
\<close>

theorem header_round_trip:
  assumes "0 < sT" and "n \<le> max_size sT"
    and "allocate E a sT n key z s = (Inr p, s')"
  shows "sizeof_ut_new_pfx_t \<le> p
     \<and> pfx_mem s' (p - sizeof_ut_new_pfx_t) =
         \<lparr>m_key = fst (psi_memory_alloc E (effective_key a key) (n * sT + sizeof_ut_new_pfx_t)),
          m_owner = snd (psi_memory_alloc E (effective_key a key) (n * sT + sizeof_ut_new_pfx_t)),
          m_size = n * sT + sizeof_ut_new_pfx_t\<rparr>
     \<and> n_elements_allocated sT p s' = n"
proof -
  let ?t = "n * sT + sizeof_ut_new_pfx_t"
  obtain ptr s1 where r: "allocate_retry E z ?t 1 s = (ptr, s1)"
    by (cases "allocate_retry E z ?t 1 s")
  from assms(2,3) r have ok: "ptr \<noteq> nullptr" and p: "p = ptr + sizeof_ut_new_pfx_t"
    and s': "s' = allocate_trace E a ?t key ptr s1"
    by (auto simp: allocate_def Let_def total_bytes_exact split: if_splits)
  have hdr: "pfx_mem s' ptr =
         \<lparr>m_key = fst (psi_memory_alloc E (effective_key a key) ?t),
          m_owner = snd (psi_memory_alloc E (effective_key a key) ?t),
          m_size = ?t\<rparr>"
    by (simp add: s' allocate_trace_def effective_key_def emit_def Let_def split: prod.splits)
  from max_size_no_overflow [OF assms(2)] have lt: "?t < 2 ^ 64"
    by (simp add: SIZE_MAX_def)
  have "size_t_sub ?t sizeof_ut_new_pfx_t = n * sT"
    using lt by (simp add: size_t_sub_def)
  then have "n_elements_allocated sT p s' = n"
    using assms(1) hdr p by (simp add: n_elements_allocated_def Let_def)
  with hdr p show ?thesis by simp
qed

lemma allocate_generous:
  "allocate generous_os \<lparr>alloc_key = 0\<rparr> 8 3 5 False example_state = (Inr 4128, allocated_state)"
  by (simp add: allocate_def max_size_def SIZE_MAX_def sizeof_ut_new_pfx_t_def size_t_add_def
      size_t_mul_def allocate_retry_first_ok allocate_trace_def emit_def example_state_def
      allocated_state_def generous_os_def nullptr_def PSI_NOT_INSTRUMENTED_def Let_def)

text \<open>
  The theorem at 3 elements of 8 bytes, the OS allocator returning the address 4096:
  the pointer is 4128, the header at 4096 records 56 bytes.
\<close>

theorem header_round_trip_witness:
  "(0::nat) < 8 \<and> 3 \<le> max_size 8
   \<and> allocate generous_os \<lparr>alloc_key = 0\<rparr> 8 3 5 False example_state = (Inr 4128, allocated_state)
   \<and> pfx_mem allocated_state 4096 = \<lparr>m_key = 5, m_owner = 7, m_size = 56\<rparr>
   \<and> n_elements_allocated 8 4128 allocated_state = 3"
proof -
  have small: "3 \<le> max_size 8"
    by (simp add: max_size_def SIZE_MAX_def sizeof_ut_new_pfx_t_def)
  have pos: "(0::nat) < 8" by simp
  have "pfx_mem allocated_state 4096 = \<lparr>m_key = 5, m_owner = 7, m_size = 56\<rparr>"
    by (simp add: allocated_state_def)
  with header_round_trip [OF pos small allocate_generous] small allocate_generous
  show ?thesis by simp
qed

lemma accounting_append: "accounting (xs @ ys) = accounting xs @ accounting ys"
  by (simp add: accounting_def)

lemma accounting_realloc_attempts:
  "accounting (concat (replicate j [Os_realloc q t r, Sleep_for_seconds d])) = []"
  by (induction j) (simp_all add: accounting_def)

lemma reallocate_resize:
  assumes "ptr \<noteq> nullptr" and "n \<noteq> 0"
    and "reallocate E a sT ptr n key s = (Inr p, s')" and "p \<noteq> nullptr"
  shows "n \<le> max_size sT
     \<and> accounting (events s') =
         accounting (events s)
         @ [Memory_free (m_key (pfx_mem s (ptr - sizeof_ut_new_pfx_t)))
                        (m_size (pfx_mem s (ptr - sizeof_ut_new_pfx_t)))
                        (m_owner (pfx_mem s (ptr - sizeof_ut_new_pfx_t))),
            Memory_alloc (effective_key a key) (n * sT + sizeof_ut_new_pfx_t)]
     \<and> pfx_mem s' (p - sizeof_ut_new_pfx_t) =
         \<lparr>m_key = fst (psi_memory_alloc E (effective_key a key) (n * sT + sizeof_ut_new_pfx_t)),
          m_owner = snd (psi_memory_alloc E (effective_key a key) (n * sT + sizeof_ut_new_pfx_t)),
          m_size = n * sT + sizeof_ut_new_pfx_t\<rparr>"
proof -
  let ?t = "n * sT + sizeof_ut_new_pfx_t"
  let ?old = "ptr - sizeof_ut_new_pfx_t"
  have le: "n \<le> max_size sT"
    using assms by (auto simp: reallocate_def split: if_splits)
  from reallocate_retry_shape [of 1 E ?old ?t s]
  obtain j where eq: "reallocate_retry E ?old ?t 1 s =
       (os_answer E (os_calls s + j),
        s\<lparr>os_calls := os_calls s + Suc j,
          pfx_mem := (if os_answer E (os_calls s + j) \<noteq> nullptr
                      then (pfx_mem s)(os_answer E (os_calls s + j) := pfx_mem s ?old)
                      else pfx_mem s),
          events := events s
            @ concat (replicate j [Os_realloc ?old ?t nullptr, Sleep_for_seconds 1])
            @ [Os_realloc ?old ?t (os_answer E (os_calls s + j))]\<rparr>)"
    by blast
  let ?new = "os_answer E (os_calls s + j)"
  let ?s1 = "s\<lparr>os_calls := os_calls s + Suc j,
          pfx_mem := (pfx_mem s)(?new := pfx_mem s ?old),
          events := events s
            @ concat (replicate j [Os_realloc ?old ?t nullptr, Sleep_for_seconds 1])
            @ [Os_realloc ?old ?t ?new]\<rparr>"
  have new: "?new \<noteq> nullptr"
    using assms le eq by (auto simp: reallocate_def Let_def total_bytes_exact split: if_splits)
  then have eq1: "reallocate_retry E ?old ?t 1 s = (?new, ?s1)"
    using eq by simp
  have p: "p = ?new + sizeof_ut_new_pfx_t"
    and s': "s' = allocate_trace E a ?t key ?new (deallocate_trace ?new ?s1)"
    using assms le eq1 new by (auto simp: reallocate_def Let_def total_bytes_exact)
  have ev: "events s' = events ?s1
     @ [Memory_free (m_key (pfx_mem s ?old)) (m_size (pfx_mem s ?old)) (m_owner (pfx_mem s ?old)),
        Memory_alloc (effective_key a key) ?t]"
    by (simp add: s' allocate_trace_def deallocate_trace_def emit_def effective_key_def Let_def
        split: prod.splits)
  have hdr: "pfx_mem s' ?new =
         \<lparr>m_key = fst (psi_memory_alloc E (effective_key a key) ?t),
          m_owner = snd (psi_memory_alloc E (effective_key a key) ?t),
          m_size = ?t\<rparr>"
    by (simp add: s' allocate_trace_def deallocate_trace_def emit_def effective_key_def Let_def
        split: prod.splits)
  have "accounting (events ?s1) = accounting (events s)"
    by (simp add: accounting_append accounting_realloc_attempts) (simp add: accounting_def)
  with ev have "accounting (events s') = accounting (events s)
     @ [Memory_free (m_key (pfx_mem s ?old)) (m_size (pfx_mem s ?old)) (m_owner (pfx_mem s ?old)),
        Memory_alloc (effective_key a key) ?t]"
    by (simp add: accounting_append) (simp add: accounting_def)
  with le hdr p show ?thesis by simp
qed

text \<open>
  C6 (as amended). With a null pointer and a count that is not zero, \<^verbatim>\<open>reallocate\<close> is
  a fresh \<^verbatim>\<open>allocate\<close> of that count. With the count zero it returns a null pointer:
  it does nothing else when the pointer is null, and otherwise retires the block's
  accounting entry and frees the block. On a successful resize of a block the
  accounting calls of the operation are exactly two, first the retirement of the old
  entry (the key, size and owner of the old header), then the installation of the new
  one, whose header stands before the returned pointer.
\<close>

theorem reallocate_semantics:
  "(n \<noteq> 0 \<longrightarrow> reallocate E a sT nullptr n key s = allocate E a sT n key False s)
   \<and> reallocate E a sT nullptr 0 key s = (Inr nullptr, s)
   \<and> (ptr \<noteq> nullptr \<longrightarrow>
        reallocate E a sT ptr 0 key s =
          (Inr nullptr,
           emit [Memory_free (m_key (pfx_mem s (ptr - sizeof_ut_new_pfx_t)))
                             (m_size (pfx_mem s (ptr - sizeof_ut_new_pfx_t)))
                             (m_owner (pfx_mem s (ptr - sizeof_ut_new_pfx_t))),
                 Os_free (ptr - sizeof_ut_new_pfx_t)] s))
   \<and> (ptr \<noteq> nullptr \<and> n \<noteq> 0 \<and> reallocate E a sT ptr n key s = (Inr p, s') \<and> p \<noteq> nullptr \<longrightarrow>
        accounting (events s') =
          accounting (events s)
          @ [Memory_free (m_key (pfx_mem s (ptr - sizeof_ut_new_pfx_t)))
                         (m_size (pfx_mem s (ptr - sizeof_ut_new_pfx_t)))
                         (m_owner (pfx_mem s (ptr - sizeof_ut_new_pfx_t))),
             Memory_alloc (effective_key a key) (n * sT + sizeof_ut_new_pfx_t)]
        \<and> pfx_mem s' (p - sizeof_ut_new_pfx_t) =
            \<lparr>m_key = fst (psi_memory_alloc E (effective_key a key) (n * sT + sizeof_ut_new_pfx_t)),
             m_owner = snd (psi_memory_alloc E (effective_key a key) (n * sT + sizeof_ut_new_pfx_t)),
             m_size = n * sT + sizeof_ut_new_pfx_t\<rparr>)"
proof -
  have "n \<noteq> 0 \<longrightarrow> reallocate E a sT nullptr n key s = allocate E a sT n key False s"
    by (simp add: reallocate_def)
  moreover have "reallocate E a sT nullptr 0 key s = (Inr nullptr, s)"
    by (simp add: reallocate_def deallocate_def)
  moreover have "ptr \<noteq> nullptr \<longrightarrow>
        reallocate E a sT ptr 0 key s =
          (Inr nullptr,
           emit [Memory_free (m_key (pfx_mem s (ptr - sizeof_ut_new_pfx_t)))
                             (m_size (pfx_mem s (ptr - sizeof_ut_new_pfx_t)))
                             (m_owner (pfx_mem s (ptr - sizeof_ut_new_pfx_t))),
                 Os_free (ptr - sizeof_ut_new_pfx_t)] s)"
    by (simp add: reallocate_def deallocate_def deallocate_trace_def emit_def Let_def)
  ultimately show ?thesis
    using reallocate_resize [of ptr n E a sT key s p s'] by blast
qed

lemma reallocate_retry_first_ok:
  "os_answer E (os_calls s) \<noteq> nullptr \<Longrightarrow>
   reallocate_retry E pfx_old t r s =
     (os_answer E (os_calls s),
      emit [Os_realloc pfx_old t (os_answer E (os_calls s))]
        (s\<lparr>os_calls := Suc (os_calls s),
           pfx_mem := (pfx_mem s)(os_answer E (os_calls s) := pfx_mem s pfx_old)\<rparr>))"
  by (simp add: reallocate_retry.simps [of E pfx_old t r s] Let_def)

lemma reallocate_generous:
  "reallocate generous_os \<lparr>alloc_key = 9\<rparr> 8 4128 4 5 allocated_state =
     (Inr 8224,
      \<lparr>os_calls = 2,
       pfx_mem = (\<lambda>p. \<lparr>m_key = 0, m_owner = 0, m_size = 0\<rparr>)
                 (4096 := \<lparr>m_key = 5, m_owner = 7, m_size = 56\<rparr>,
                  8192 := \<lparr>m_key = 9, m_owner = 7, m_size = 64\<rparr>),
       events = [Os_malloc 56 4096, Memory_alloc 5 56, Os_realloc 4096 64 8192,
                 Memory_free 5 56 7, Memory_alloc 9 64]\<rparr>)"
  by (simp add: reallocate_def max_size_def SIZE_MAX_def sizeof_ut_new_pfx_t_def size_t_add_def
      size_t_mul_def reallocate_retry_first_ok allocate_trace_def
      deallocate_trace_def emit_def allocated_state_def
      generous_os_def nullptr_def PSI_NOT_INSTRUMENTED_def Let_def)

text \<open>
  The theorem on the block of 3 elements at 4128: grown to 4 elements under an
  allocator of key 9, it moves to 8224.
\<close>

theorem reallocate_semantics_witness:
  "(4::nat) \<noteq> 0 \<and> 4128 \<noteq> nullptr \<and> 8224 \<noteq> nullptr
   \<and> reallocate generous_os \<lparr>alloc_key = 9\<rparr> 8 nullptr 4 5 allocated_state
       = allocate generous_os \<lparr>alloc_key = 9\<rparr> 8 4 5 False allocated_state
   \<and> reallocate generous_os \<lparr>alloc_key = 9\<rparr> 8 4128 0 5 allocated_state
       = (Inr nullptr, emit [Memory_free 5 56 7, Os_free 4096] allocated_state)
   \<and> accounting (events (snd (reallocate generous_os \<lparr>alloc_key = 9\<rparr> 8 4128 4 5 allocated_state)))
       = [Memory_alloc 5 56, Memory_free 5 56 7, Memory_alloc 9 64]"
proof -
  have n4: "(4::nat) \<noteq> 0" by simp
  have p1: "(4128::nat) \<noteq> nullptr" and p2: "(8224::nat) \<noteq> nullptr"
    by (simp_all add: nullptr_def)
  have old: "pfx_mem allocated_state (4128 - sizeof_ut_new_pfx_t) = \<lparr>m_key = 5, m_owner = 7, m_size = 56\<rparr>"
    and "4128 - sizeof_ut_new_pfx_t = 4096"
    and "accounting (events allocated_state) = [Memory_alloc 5 56]"
    and "effective_key \<lparr>alloc_key = 9\<rparr> 5 = 9"
    and "4 * 8 + sizeof_ut_new_pfx_t = 64"
    by (simp_all add: allocated_state_def sizeof_ut_new_pfx_t_def accounting_def
        effective_key_def PSI_NOT_INSTRUMENTED_def)
  with reallocate_semantics [of 4 generous_os "\<lparr>alloc_key = 9\<rparr>" 8 5 allocated_state 4128 8224
      "snd (reallocate generous_os \<lparr>alloc_key = 9\<rparr> 8 4128 4 5 allocated_state)"]
    reallocate_generous n4 p1 p2
  show ?thesis by simp
qed

text \<open>
  C6 as stated fails at a null pointer with the count zero: \<^verbatim>\<open>reallocate\<close> returns a
  null pointer and does nothing, while a fresh \<^verbatim>\<open>allocate\<close> of zero elements calls the
  OS allocator, installs a header and returns a pointer that is not null.
\<close>

theorem reallocate_null_zero_counterexample:
  "reallocate generous_os \<lparr>alloc_key = 0\<rparr> 8 nullptr 0 5 example_state
     = (Inr nullptr, example_state)
   \<and> allocate generous_os \<lparr>alloc_key = 0\<rparr> 8 0 5 False example_state
     = (Inr 4128,
        \<lparr>os_calls = 1,
         pfx_mem = (\<lambda>p. \<lparr>m_key = 0, m_owner = 0, m_size = 0\<rparr>)
                   (4096 := \<lparr>m_key = 5, m_owner = 7, m_size = 32\<rparr>),
         events = [Os_malloc 32 4096, Memory_alloc 5 32]\<rparr>)"
  by (simp add: reallocate_def deallocate_def allocate_def max_size_def SIZE_MAX_def
      sizeof_ut_new_pfx_t_def size_t_add_def size_t_mul_def allocate_retry_first_ok
      allocate_trace_def emit_def example_state_def generous_os_def nullptr_def
      PSI_NOT_INSTRUMENTED_def Let_def)

section \<open>Construction and destruction of arrays\<close>

lemma upt_0_Suc_shift: "[0..<Suc k] = 0 # map Suc [0..<k]"
  by (simp add: upt_rec [of 0 "Suc k"] map_Suc_upt del: upt_Suc)

lemma sub_mod_exact:
  fixes M :: nat
  assumes "b \<le> a" and "a < M"
  shows "(a + M - b) mod M = a - b"
proof -
  from assms(1) obtain c where a: "a = b + c"
    by (auto simp: le_iff_add)
  with assms(2) have "c < M" by simp
  then show ?thesis
    unfolding a by simp
qed

lemma size_t_sub_exact:
  "b \<le> a \<Longrightarrow> a < 2 ^ 64 \<Longrightarrow> size_t_sub a b = a - b"
  unfolding size_t_sub_def by (rule sub_mod_exact)

lemma new_array_construct_throws:
  assumes "k < n" and "\<forall>j. i \<le> j \<and> j < k \<longrightarrow> ctor j = None" and "ctor k = Some e"
    and "i \<le> k"
  shows "new_array_construct ctor sT n (first + i * sT) i evs =
     (Some e, k, first + k * sT,
      evs @ map (\<lambda>j. Construct (first + j * sT)) [i..<k] @ [Construct_throws (first + k * sT) e])"
  using assms
proof (induction "k - i" arbitrary: i evs)
  case 0
  then have "i = k" by simp
  with 0 show ?case
    by (simp add: new_array_construct.simps [of ctor sT n "first + k * sT" k evs])
next
  case (Suc d)
  then have lt: "i < k" and d: "d = k - Suc i" by auto
  with Suc.prems have none: "ctor i = None" and "i < n" by auto
  have step: "new_array_construct ctor sT n (first + i * sT) i evs =
      new_array_construct ctor sT n (first + Suc i * sT) (Suc i) (evs @ [Construct (first + i * sT)])"
    using none \<open>i < n\<close>
    by (simp add: new_array_construct.simps [of ctor sT n "first + i * sT" i evs] ac_simps)
  have "\<forall>j. Suc i \<le> j \<and> j < k \<longrightarrow> ctor j = None" using Suc.prems(2) by auto
  from Suc.hyps(1) [OF d Suc.prems(1) this Suc.prems(3)] lt
  have "new_array_construct ctor sT n (first + Suc i * sT) (Suc i) (evs @ [Construct (first + i * sT)]) =
     (Some e, k, first + k * sT,
      (evs @ [Construct (first + i * sT)]) @ map (\<lambda>j. Construct (first + j * sT)) [Suc i..<k]
        @ [Construct_throws (first + k * sT) e])"
    by simp
  with step lt show ?case
    by (simp add: upt_conv_Cons)
qed

lemma new_array_rollback_trace:
  assumes "j \<le> i"
  shows "new_array_rollback sT i (first + (i - j) * sT) j evs =
     evs @ map (\<lambda>m. Destruct (first + m * sT)) (rev [0..<i - j])"
  using assms
proof (induction "i - j" arbitrary: j evs)
  case 0
  then have "i = j" by simp
  then show ?case
    by (simp add: new_array_rollback.simps [of sT j first j evs])
next
  case (Suc d)
  then have lt: "j < i" and d: "d = i - Suc j" and ij: "i - j = Suc d" by auto
  have p: "first + (i - j) * sT - sT = first + (i - Suc j) * sT"
    using ij d by simp
  have "new_array_rollback sT i (first + (i - j) * sT) j evs =
      new_array_rollback sT i (first + (i - Suc j) * sT) (Suc j)
        (evs @ [Destruct (first + (i - Suc j) * sT)])"
    using lt p by (simp add: new_array_rollback.simps [of sT i "first + (i - j) * sT" j evs])
  also have "\<dots> = (evs @ [Destruct (first + (i - Suc j) * sT)])
       @ map (\<lambda>m. Destruct (first + m * sT)) (rev [0..<i - Suc j])"
    using Suc.hyps(1) [OF d] lt by simp
  finally show ?case
    using ij d by simp
qed

lemma new_arr_rollback_trace:
  assumes "0 < sT" and "mem + k * sT < 2 ^ 64"
  shows "new_arr_rollback sT mem (k * sT) evs =
     Some (evs @ map (\<lambda>m. Destruct (mem + m * sT)) (rev [0..<k]))"
  using assms(2)
proof (induction k arbitrary: evs)
  case 0
  then show ?case by (simp add: new_arr_rollback.simps [of sT mem 0 evs])
next
  case (Suc k)
  have ne: "Suc k * sT \<noteq> 0" using assms(1) by simp
  have lt: "Suc k * sT < 2 ^ 64" using Suc.prems by simp
  have sub: "size_t_sub (Suc k * sT) sT = k * sT"
    using lt by (simp add: size_t_sub_exact)
  have addr: "size_t_sub (size_t_add mem (Suc k * sT)) sT = mem + k * sT"
    using Suc.prems by (simp add: size_t_add_def size_t_sub_exact)
  have "new_arr_rollback sT mem (Suc k * sT) evs =
      new_arr_rollback sT mem (k * sT) (evs @ [Destruct (mem + k * sT)])"
    using ne sub addr by (subst new_arr_rollback.simps) simp
  also have "\<dots> = Some ((evs @ [Destruct (mem + k * sT)])
       @ map (\<lambda>m. Destruct (mem + m * sT)) (rev [0..<k]))"
    using Suc.IH Suc.prems by simp
  finally show ?case by simp
qed

lemma size_t_mul_exact: "a * b < 2 ^ 64 \<Longrightarrow> size_t_mul a b = a * b"
  by (simp add: size_t_mul_def)

lemma size_t_add_exact: "a + b < 2 ^ 64 \<Longrightarrow> size_t_add a b = a + b"
  by (simp add: size_t_add_def)

lemma mult_less_bound:
  fixes a :: nat
  assumes "a \<le> b" and "sT * b < M"
  shows "sT * a < M"
proof -
  have "sT * a \<le> sT * b" using assms(1) by simp
  then show ?thesis using assms(2) by (rule le_less_trans)
qed

lemma index_less_bound:
  fixes a :: nat
  assumes "0 < sT" and "sT * a < M"
  shows "a < M"
proof -
  have "a * 1 \<le> a * sT" using assms(1) by (intro mult_le_mono2) simp
  then have "a \<le> sT * a" by (simp add: mult.commute)
  then show ?thesis using assms(2) by (rule le_less_trans)
qed

lemma new_arr_construct_args_throws:
  assumes "0 < sT" and "sT * (idx + length args) < 2 ^ 64"
    and "k < length args" and "\<forall>i<k. ctor (args ! i) = None" and "ctor (args ! k) = Some e"
  shows "new_arr_construct_args ctor sT mem args idx evs =
     (Some e, idx + k + 1,
      evs @ map (\<lambda>i. Construct (mem + (idx + i) * sT)) [0..<k]
          @ [Construct_throws (mem + (idx + k) * sT) e])"
  using assms(2-)
proof (induction args arbitrary: idx k evs)
  case Nil
  then show ?case by simp
next
  case (Cons arg args)
  have b0: "sT * idx < 2 ^ 64"
    by (rule mult_less_bound [OF _ Cons.prems(1)]) simp
  have b1: "sT * (idx + 1) < 2 ^ 64"
    by (rule mult_less_bound [OF _ Cons.prems(1)]) simp
  have off: "size_t_mul sT idx = idx * sT"
    using b0 by (simp add: size_t_mul_exact mult.commute)
  have "idx + 1 < 2 ^ 64"
    by (rule index_less_bound [OF assms(1) b1])
  then have inc: "size_t_add idx 1 = Suc idx"
    by (simp add: size_t_add_exact)
  show ?case
  proof (cases k)
    case 0
    with Cons.prems have "ctor arg = Some e" by simp
    with 0 off inc show ?thesis by (simp add: Let_def)
  next
    case (Suc k')
    with Cons.prems have none: "ctor arg = None" by auto
    have p1: "sT * (Suc idx + length args) < 2 ^ 64" using Cons.prems(1) by simp
    have p2: "k' < length args" using Cons.prems(2) Suc by simp
    have p3: "\<forall>i<k'. ctor (args ! i) = None"
    proof (intro allI impI)
      fix i assume "i < k'"
      then have "Suc i < k" using Suc by simp
      with Cons.prems(3) have "ctor ((arg # args) ! Suc i) = None" by blast
      then show "ctor (args ! i) = None" by simp
    qed
    have p4: "ctor (args ! k') = Some e" using Cons.prems(4) Suc by simp
    have "new_arr_construct_args ctor sT mem (arg # args) idx evs =
        new_arr_construct_args ctor sT mem args (Suc idx) (evs @ [Construct (mem + idx * sT)])"
      using none off inc by (simp add: Let_def)
    also have "\<dots> = (Some e, Suc idx + k' + 1,
      (evs @ [Construct (mem + idx * sT)])
        @ map (\<lambda>i. Construct (mem + (Suc idx + i) * sT)) [0..<k']
        @ [Construct_throws (mem + (Suc idx + k') * sT) e])"
      by (rule Cons.IH [OF p1 p2 p3 p4])
    also have "map (\<lambda>i. Construct (mem + (Suc idx + i) * sT)) [0..<k'] =
        map (\<lambda>i. Construct (mem + (idx + i) * sT)) (map Suc [0..<k'])"
      by (simp add: comp_def)
    finally show ?thesis
      using Suc by (simp add: upt_0_Suc_shift del: upt_Suc)
  qed
qed

lemma new_arr_construct_count_throws:
  assumes "0 < sT" and "sT * n < 2 ^ 64" and "k < n"
    and "\<forall>j. i \<le> j \<and> j < k \<longrightarrow> ctor j = None" and "ctor k = Some e" and "i \<le> k"
  shows "new_arr_construct_count ctor sT mem (sT * n) (i * sT) evs =
     Some (Some e, k * sT,
           evs @ map (\<lambda>j. Construct (mem + j * sT)) [i..<k] @ [Construct_throws (mem + k * sT) e])"
  using assms(4-)
proof (induction "k - i" arbitrary: i evs)
  case 0
  then have ik: "i = k" by simp
  have "k * sT < sT * n" using assms(1,3) by (simp add: mult.commute)
  moreover have "k * sT div sT = k" using assms(1) by simp
  ultimately show ?case
    unfolding ik using 0
    by (subst new_arr_construct_count.simps) simp
next
  case (Suc d)
  then have lt: "i < k" and d: "d = k - Suc i" by auto
  with Suc.prems assms(3) have none: "ctor i = None" and "i < n" by auto
  have in_range: "i * sT < sT * n" using assms(1) \<open>i < n\<close> by (simp add: mult.commute)
  have idx: "i * sT div sT = i" using assms(1) by simp
  have "sT * Suc i < 2 ^ 64"
    by (rule mult_less_bound [OF _ assms(2)]) (use \<open>i < n\<close> in simp)
  then have next_off: "size_t_add (i * sT) sT = Suc i * sT"
    by (simp add: size_t_add_exact mult.commute)
  have step: "new_arr_construct_count ctor sT mem (sT * n) (i * sT) evs =
      new_arr_construct_count ctor sT mem (sT * n) (Suc i * sT) (evs @ [Construct (mem + i * sT)])"
    using in_range idx none next_off
    by (subst new_arr_construct_count.simps) simp
  have "\<forall>j. Suc i \<le> j \<and> j < k \<longrightarrow> ctor j = None" using Suc.prems(1) by auto
  from Suc.hyps(1) [OF d this Suc.prems(2)] lt
  have "new_arr_construct_count ctor sT mem (sT * n) (Suc i * sT) (evs @ [Construct (mem + i * sT)]) =
     Some (Some e, k * sT,
      (evs @ [Construct (mem + i * sT)]) @ map (\<lambda>j. Construct (mem + j * sT)) [Suc i..<k]
        @ [Construct_throws (mem + k * sT) e])"
    by simp
  with step lt show ?case
    by (simp add: upt_conv_Cons)
qed

text \<open>
  C3. An array of \<open>n\<close> elements of \<open>sT\<close> bytes is constructed at a block that lies in
  the address space, the constructors of the elements before index \<open>k < n\<close> return and
  the constructor of element \<open>k\<close> throws \<open>e\<close>. Then both overloads of
  \<^verbatim>\<open>ut::new_arr_withkey\<close> and \<^verbatim>\<open>ut_allocator::new_array\<close> (whose allocation returned
  \<open>first\<close>) run exactly \<open>k\<close> destructors, for the elements \<open>k - 1\<close> down to \<open>0\<close>,
  then release the memory, and throw \<open>e\<close> itself.
\<close>

theorem array_construction_rollback:
  assumes "0 < sT" and "k < n"
    and "mem \<noteq> nullptr" and "mem + sT * n < 2 ^ 64"
    and "\<forall>i<k. ctor i = None" and "ctor k = Some e"
    and "length args = n" and "\<forall>i<k. ctor' (args ! i) = None" and "ctor' (args ! k) = Some e"
    and "allocate E a sT n key False s = (Inr first, s1)"
  shows "new_arr_withkey_args key' sT mem ctor' args =
           Some (Inl e, [Ut_alloc key' (sT * n) mem] @ construct_then_rollback mem sT k e @ [Ut_free mem])
     \<and> new_arr_withkey_count key' sT mem ctor n =
           Some (Inl e, [Ut_alloc key' (sT * n) mem] @ construct_then_rollback mem sT k e @ [Ut_free mem])
     \<and> new_array E a sT ctor n key s =
           (Inl e,
            emit (construct_then_rollback first sT k e
                  @ [Memory_free (m_key (pfx_mem s1 (first - sizeof_ut_new_pfx_t)))
                                 (m_size (pfx_mem s1 (first - sizeof_ut_new_pfx_t)))
                                 (m_owner (pfx_mem s1 (first - sizeof_ut_new_pfx_t))),
                     Os_free (first - sizeof_ut_new_pfx_t)]) s1)"
proof -
  have bytes: "sT * n < 2 ^ 64" using assms(4) by simp
  have kn: "sT * k < 2 ^ 64"
    by (rule mult_less_bound [OF _ bytes]) (use assms(2) in simp)
  have k1n: "sT * Suc k < 2 ^ 64"
    by (rule mult_less_bound [OF _ bytes]) (use assms(2) in simp)
  have le: "k * sT \<le> n * sT"
    by (rule mult_le_mono1) (use assms(2) in simp)
  have "mem + n * sT < 2 ^ 64" using assms(4) by (simp add: mult.commute)
  with le have memk: "mem + k * sT < 2 ^ 64" by linarith
  have "Suc k < 2 ^ 64" by (rule index_less_bound [OF assms(1) k1n])
  then have dec: "size_t_sub (k + 1) 1 = k" by (simp add: size_t_sub_exact)
  have start: "size_t_mul k sT = k * sT" using kn by (simp add: size_t_mul_exact mult.commute)
  have total: "size_t_mul sT n = sT * n" using bytes by (simp add: size_t_mul_exact)
  have none0: "\<forall>j. 0 \<le> j \<and> j < k \<longrightarrow> ctor j = None" using assms(5) by simp

  have args_built: "new_arr_construct_args ctor' sT mem args 0 [Ut_alloc key' (sT * n) mem] =
     (Some e, 0 + k + 1,
      [Ut_alloc key' (sT * n) mem] @ map (\<lambda>i. Construct (mem + (0 + i) * sT)) [0..<k]
          @ [Construct_throws (mem + (0 + k) * sT) e])"
    by (rule new_arr_construct_args_throws) (use assms bytes in simp_all)
  have part1: "new_arr_withkey_args key' sT mem ctor' args =
           Some (Inl e, [Ut_alloc key' (sT * n) mem] @ construct_then_rollback mem sT k e @ [Ut_free mem])"
    using assms(3,7) args_built dec start total
      new_arr_rollback_trace [OF assms(1) memk]
    by (simp add: new_arr_withkey_args_def Let_def construct_then_rollback_def)

  have count_built: "new_arr_construct_count ctor sT mem (sT * n) (0 * sT) [Ut_alloc key' (sT * n) mem] =
     Some (Some e, k * sT,
           [Ut_alloc key' (sT * n) mem] @ map (\<lambda>j. Construct (mem + j * sT)) [0..<k]
             @ [Construct_throws (mem + k * sT) e])"
    by (rule new_arr_construct_count_throws [OF assms(1) bytes assms(2) none0 assms(6)]) simp
  have part2: "new_arr_withkey_count key' sT mem ctor n =
           Some (Inl e, [Ut_alloc key' (sT * n) mem] @ construct_then_rollback mem sT k e @ [Ut_free mem])"
    using assms(3) count_built total new_arr_rollback_trace [OF assms(1) memk]
    by (simp add: new_arr_withkey_count_def Let_def construct_then_rollback_def)

  have first: "first \<noteq> nullptr"
    using assms(10) by (auto simp: allocate_def Let_def nullptr_def sizeof_ut_new_pfx_t_def
        split: if_splits prod.splits)
  have built: "new_array_construct ctor sT n (first + 0 * sT) 0 [] =
     (Some e, k, first + k * sT,
      [] @ map (\<lambda>j. Construct (first + j * sT)) [0..<k] @ [Construct_throws (first + k * sT) e])"
    by (rule new_array_construct_throws [OF assms(2) none0 assms(6)]) simp
  have undone: "new_array_rollback sT k (first + (k - 0) * sT) 0 evs =
     evs @ map (\<lambda>m. Destruct (first + m * sT)) (rev [0..<k - 0])" for evs
    by (rule new_array_rollback_trace) simp
  have part3: "new_array E a sT ctor n key s =
           (Inl e,
            emit (construct_then_rollback first sT k e
                  @ [Memory_free (m_key (pfx_mem s1 (first - sizeof_ut_new_pfx_t)))
                                 (m_size (pfx_mem s1 (first - sizeof_ut_new_pfx_t)))
                                 (m_owner (pfx_mem s1 (first - sizeof_ut_new_pfx_t))),
                     Os_free (first - sizeof_ut_new_pfx_t)]) s1)"
    using assms(10) first built undone
    by (simp add: new_array_def deallocate_def deallocate_trace_def emit_def Let_def
        construct_then_rollback_def)
  from part1 part2 part3 show ?thesis by simp
qed

text \<open>
  The theorem at 3 elements of 8 bytes whose third constructor throws: two elements
  are constructed, the third throws, the second and then the first are destructed.
\<close>

theorem array_construction_rollback_witness:
  "(0::nat) < 8 \<and> (2::nat) < 3 \<and> 4096 \<noteq> nullptr \<and> (4096::nat) + 8 * 3 < 2 ^ 64
   \<and> throws_at 2 0 = None \<and> throws_at 2 1 = None \<and> throws_at 2 2 = Some (T_exception 7)
   \<and> length [0, 1, 2::nat] = 3
   \<and> allocate generous_os \<lparr>alloc_key = 0\<rparr> 8 3 5 False example_state = (Inr 4128, allocated_state)
   \<and> new_arr_withkey_args 5 8 4096 (throws_at 2) [0, 1, 2] =
        Some (Inl (T_exception 7),
              [Ut_alloc 5 24 4096, Construct 4096, Construct 4104,
               Construct_throws 4112 (T_exception 7), Destruct 4104, Destruct 4096, Ut_free 4096])
   \<and> new_arr_withkey_count 5 8 4096 (throws_at 2) 3 =
        Some (Inl (T_exception 7),
              [Ut_alloc 5 24 4096, Construct 4096, Construct 4104,
               Construct_throws 4112 (T_exception 7), Destruct 4104, Destruct 4096, Ut_free 4096])
   \<and> new_array generous_os \<lparr>alloc_key = 0\<rparr> 8 (throws_at 2) 3 5 example_state =
        (Inl (T_exception 7),
         emit [Construct 4128, Construct 4136, Construct_throws 4144 (T_exception 7),
               Destruct 4136, Destruct 4128, Memory_free 5 56 7, Os_free 4096] allocated_state)"
proof -
  have h1: "(0::nat) < 8" and h2: "(2::nat) < 3" and h4: "(4096::nat) + 8 * 3 < 2 ^ 64"
    and h7: "length [0, 1, 2::nat] = 3"
    by simp_all
  have h3: "(4096::nat) \<noteq> nullptr" by (simp add: nullptr_def)
  have t0: "throws_at 2 0 = None" and t1: "throws_at 2 1 = None"
    and h6: "throws_at 2 2 = Some (T_exception 7)"
    by (simp_all add: throws_at_def)
  have h5: "\<forall>i<2. throws_at 2 i = None"
    by (simp add: throws_at_def)
  have h8: "\<forall>i<2. throws_at 2 ([0, 1, 2] ! i) = None"
    by (auto simp: throws_at_def less_Suc_eq numeral_2_eq_2)
  have h9: "throws_at 2 ([0, 1, 2] ! 2) = Some (T_exception 7)"
    by (simp add: throws_at_def)
  have trace: "construct_then_rollback mem 8 2 e =
      [Construct mem, Construct (mem + 8), Construct_throws (mem + 16) e,
       Destruct (mem + 8), Destruct mem]" for mem e
    by (simp add: construct_then_rollback_def numeral_2_eq_2)
  have hdr: "pfx_mem allocated_state 4096 = \<lparr>m_key = 5, m_owner = 7, m_size = 56\<rparr>"
    and off: "4128 - sizeof_ut_new_pfx_t = 4096"
    by (simp_all add: allocated_state_def sizeof_ut_new_pfx_t_def)
  from array_construction_rollback [OF h1 h2 h3 h4 h5 h6 h7 h8 h9 allocate_generous, of 5]
  show ?thesis
    using h3 t0 t1 h6 allocate_generous by (simp add: trace hdr off)
qed

text \<open>
  \<^verbatim>\<open>ut::delete_arr\<close> on an array of \<open>n\<close> elements destructs them from index \<open>0\<close>
  upwards; \<^verbatim>\<open>ut_allocator::delete_array\<close> destructs them from index \<open>n - 1\<close>
  downwards.
\<close>

lemma delete_arr_destroy_ascending:
  assumes "0 < sT" and "ptr + n * sT < 2 ^ 64" and "i \<le> n"
  shows "delete_arr_destroy sT ptr (n * sT) (i * sT) evs =
     Some (evs @ map (\<lambda>j. Destruct (ptr + j * sT)) [i..<n])"
  using assms(3)
proof (induction "n - i" arbitrary: i evs)
  case 0
  then have "i = n" by simp
  then show ?case
    by (subst delete_arr_destroy.simps) simp
next
  case (Suc d)
  then have lt: "i < n" and d: "d = n - Suc i" by auto
  have in_range: "i * sT < n * sT" using assms(1) lt by simp
  have le: "Suc i * sT \<le> n * sT"
    by (rule mult_le_mono1) (use lt in simp)
  with assms(2) have "Suc i * sT < 2 ^ 64" and "ptr + i * sT < 2 ^ 64" by simp_all
  then have next_off: "size_t_add (i * sT) sT = Suc i * sT"
    and addr: "size_t_add ptr (i * sT) = ptr + i * sT"
    by (simp_all add: size_t_add_exact)
  have "delete_arr_destroy sT ptr (n * sT) (i * sT) evs =
      delete_arr_destroy sT ptr (n * sT) (Suc i * sT) (evs @ [Destruct (ptr + i * sT)])"
    using in_range next_off addr by (subst delete_arr_destroy.simps) simp
  also have "\<dots> = Some ((evs @ [Destruct (ptr + i * sT)])
                        @ map (\<lambda>j. Destruct (ptr + j * sT)) [Suc i..<n])"
    using Suc.hyps(1) [OF d] lt by simp
  finally show ?case
    using lt by (simp add: upt_conv_Cons)
qed

lemma delete_arr_ascending:
  assumes "0 < sT" and "ptr \<noteq> nullptr" and "ptr + n * sT < 2 ^ 64"
  shows "delete_arr sT ptr (n * sT) =
     Some (map (\<lambda>j. Destruct (ptr + j * sT)) [0..<n] @ [Ut_free ptr])"
  using assms(2) delete_arr_destroy_ascending [OF assms(1,3), of 0 "[]"]
  by (simp add: delete_arr_def)

lemma delete_array_destroy_descending:
  assumes "i \<le> n"
  shows "delete_array_destroy sT n (ptr + (n - i) * sT - sT) i evs =
     evs @ map (\<lambda>j. Destruct (ptr + j * sT)) (rev [0..<n - i])"
  using assms
proof (induction "n - i" arbitrary: i evs)
  case 0
  then have "i = n" by simp
  then show ?case
    by (simp add: delete_array_destroy.simps [of sT n "ptr - sT" n evs])
next
  case (Suc d)
  then have lt: "i < n" and d: "d = n - Suc i" and ni: "n - i = Suc d" by auto
  have p: "ptr + (n - i) * sT - sT = ptr + d * sT" using ni by simp
  have "delete_array_destroy sT n (ptr + (n - i) * sT - sT) i evs =
      delete_array_destroy sT n (ptr + d * sT - sT) (Suc i) (evs @ [Destruct (ptr + d * sT)])"
    using lt p by (simp add: delete_array_destroy.simps [of sT n "ptr + d * sT" i evs])
  also have "\<dots> = (evs @ [Destruct (ptr + d * sT)])
       @ map (\<lambda>j. Destruct (ptr + j * sT)) (rev [0..<d])"
    using Suc.hyps(1) [of "Suc i"] d lt by simp
  finally show ?case
    using ni by simp
qed

lemma delete_array_descending:
  assumes "ptr \<noteq> nullptr" and "n_elements_allocated sT ptr s = n"
  shows "delete_array sT ptr s =
     emit (map (\<lambda>j. Destruct (ptr + j * sT)) (rev [0..<n])
           @ [Memory_free (m_key (pfx_mem s (ptr - sizeof_ut_new_pfx_t)))
                          (m_size (pfx_mem s (ptr - sizeof_ut_new_pfx_t)))
                          (m_owner (pfx_mem s (ptr - sizeof_ut_new_pfx_t))),
              Os_free (ptr - sizeof_ut_new_pfx_t)]) s"
  using assms delete_array_destroy_descending [of 0 n sT ptr "[]"]
  by (simp add: delete_array_def deallocate_def deallocate_trace_def emit_def Let_def)

text \<open>
  C4, at an array of 3 elements of 8 bytes. \<^verbatim>\<open>ut::delete_arr\<close> at 4096, the recorded
  length being 24, destructs the elements at 4096, 4104, 4112 in this order, lowest
  index first, and then frees the block. \<^verbatim>\<open>ut_allocator::delete_array\<close> at 4128
  reads the count 3 from the header and destructs the elements at 4144, 4136, 4128,
  highest index first, before it deallocates.
\<close>

theorem delete_arr_destroys_in_ascending_order:
  "delete_arr 8 4096 24 = Some [Destruct 4096, Destruct 4104, Destruct 4112, Ut_free 4096]
   \<and> n_elements_allocated 8 4128 allocated_state = 3
   \<and> delete_array 8 4128 allocated_state =
       emit [Destruct 4144, Destruct 4136, Destruct 4128, Memory_free 5 56 7, Os_free 4096]
         allocated_state"
proof -
  have three: "n_elements_allocated 8 4128 allocated_state = 3"
    by (simp add: n_elements_allocated_def allocated_state_def sizeof_ut_new_pfx_t_def
        size_t_sub_def Let_def)
  have upt3: "[0..<3] = [0, 1, 2::nat]"
    by (simp add: numeral_3_eq_3)
  have "delete_arr 8 4096 (3 * 8) =
     Some (map (\<lambda>j. Destruct (4096 + j * 8)) [0..<3] @ [Ut_free 4096])"
    by (rule delete_arr_ascending) (simp_all add: nullptr_def)
  then have asc: "delete_arr 8 4096 24 = Some [Destruct 4096, Destruct 4104, Destruct 4112, Ut_free 4096]"
    by (simp add: upt3)
  have "delete_array 8 4128 allocated_state =
     emit (map (\<lambda>j. Destruct (4128 + j * 8)) (rev [0..<3])
           @ [Memory_free (m_key (pfx_mem allocated_state (4128 - sizeof_ut_new_pfx_t)))
                          (m_size (pfx_mem allocated_state (4128 - sizeof_ut_new_pfx_t)))
                          (m_owner (pfx_mem allocated_state (4128 - sizeof_ut_new_pfx_t))),
              Os_free (4128 - sizeof_ut_new_pfx_t)]) allocated_state"
    by (rule delete_array_descending [OF _ three]) (simp add: nullptr_def)
  moreover have "pfx_mem allocated_state 4096 = \<lparr>m_key = 5, m_owner = 7, m_size = 56\<rparr>"
    and "4128 - sizeof_ut_new_pfx_t = 4096"
    by (simp_all add: allocated_state_def sizeof_ut_new_pfx_t_def)
  ultimately have desc: "delete_array 8 4128 allocated_state =
       emit [Destruct 4144, Destruct 4136, Destruct 4128, Memory_free 5 56 7, Os_free 4096]
         allocated_state"
    by (simp add: upt3)
  from asc three desc show ?thesis by simp
qed

section \<open>The aligned variants on a throwing constructor\<close>

text \<open>
  \<^verbatim>\<open>ut::aligned_new_withkey\<close> never calls \<^verbatim>\<open>aligned_free\<close>, whatever the constructor
  does; \<^verbatim>\<open>ut::new_withkey\<close> frees the block when the constructor throws.
\<close>

lemma aligned_new_withkey_never_frees:
  "Aligned_free p \<notin> set (snd (aligned_new_withkey key alignment sT mem ctor))"
  by (simp add: aligned_new_withkey_def split: option.split)

lemma new_withkey_frees_on_throw:
  "mem \<noteq> nullptr \<Longrightarrow>
   new_withkey key sT mem (Some e) = (Inl e, [Ut_alloc key sT mem, Construct_throws mem e, Ut_free mem])"
  by (simp add: new_withkey_def)

text \<open>
  C2, at a constructor that throws. \<^verbatim>\<open>ut::aligned_new_withkey\<close> lets the exception
  out with the block at 4096 still allocated; \<^verbatim>\<open>ut::aligned_new_arr_withkey\<close> with
  3 elements whose third constructor throws lets it out with two elements constructed,
  none destructed and the block still allocated; \<^verbatim>\<open>ut::new_withkey\<close> on the same
  input frees the block before it rethrows.
\<close>

theorem aligned_construction_leaks_on_throw:
  "aligned_new_withkey 5 64 8 4096 (Some (T_exception 7)) =
     (Inl (T_exception 7), [Aligned_alloc 5 8 64 4096, Construct_throws 4096 (T_exception 7)])
   \<and> aligned_new_arr_withkey 5 64 8 4096 (throws_at 2) 3 =
     Some (Inl (T_exception 7),
           [Aligned_alloc 5 24 64 4096, Construct 4096, Construct 4104,
            Construct_throws 4112 (T_exception 7)])
   \<and> new_withkey 5 8 4096 (Some (T_exception 7)) =
     (Inl (T_exception 7), [Ut_alloc 5 8 4096, Construct_throws 4096 (T_exception 7), Ut_free 4096])"
proof -
  have "aligned_new_withkey 5 64 8 4096 (Some (T_exception 7)) =
     (Inl (T_exception 7), [Aligned_alloc 5 8 64 4096, Construct_throws 4096 (T_exception 7)])"
    by (simp add: aligned_new_withkey_def nullptr_def)
  moreover have "aligned_new_arr_withkey 5 64 8 4096 (throws_at 2) 3 =
     Some (Inl (T_exception 7),
           [Aligned_alloc 5 24 64 4096, Construct 4096, Construct 4104,
            Construct_throws 4112 (T_exception 7)])"
    by (simp add: aligned_new_arr_withkey_def aligned_new_arr_construct.simps throws_at_def
        size_t_mul_def size_t_add_def nullptr_def Let_def)
  moreover have "new_withkey 5 8 4096 (Some (T_exception 7)) =
     (Inl (T_exception 7), [Ut_alloc 5 8 4096, Construct_throws 4096 (T_exception 7), Ut_free 4096])"
    by (simp add: new_withkey_def nullptr_def)
  ultimately show ?thesis by simp
qed

section \<open>Equality of adapters, null pointers\<close>

text \<open>
  C9. Two allocators of the same element type compare equal whatever their keys:
  \<^verbatim>\<open>operator==\<close> is true and \<^verbatim>\<open>operator!=\<close> is false.
\<close>

theorem ut_allocator_always_equal:
  "ut_allocator_eq lhs rhs \<and> \<not> ut_allocator_neq lhs rhs
   \<and> ut_allocator_eq \<lparr>alloc_key = k1\<rparr> \<lparr>alloc_key = k2\<rparr>
   \<and> \<not> ut_allocator_neq \<lparr>alloc_key = k1\<rparr> \<lparr>alloc_key = k2\<rparr>"
  by (simp add: ut_allocator_eq_def ut_allocator_neq_def)

text \<open>
  C10. \<^verbatim>\<open>ut::delete_\<close> and \<^verbatim>\<open>ut::delete_arr\<close> do nothing on a null pointer, whatever
  the element size and the recorded length. \<^verbatim>\<open>ut::aligned_delete\<close> has no null check:
  on every pointer it calls the destructor through the pointer and then
  \<^verbatim>\<open>aligned_free\<close>, so on a null pointer it calls the destructor through the null
  pointer.
\<close>

theorem null_pointer_handling_differs:
  "ut_delete nullptr = []
   \<and> delete_arr sT nullptr data_len = Some []
   \<and> aligned_delete ptr = [Destruct ptr, Aligned_free ptr]
   \<and> aligned_delete nullptr = [Destruct nullptr, Aligned_free nullptr]"
  by (simp add: ut_delete_def delete_arr_def aligned_delete_def)

end
